theory Spec2Isabelle
  imports Main "HOL-Library.AList"
begin

section \<open>Feed generation from RGSX caches (scripts/build_feed.py)\<close>

text \<open>
  A shallow embedding of the transformation functions of \<^verbatim>\<open>scripts/build_feed.py\<close>.

  Conventions of the model:
  \<^item> a Python \<^verbatim>\<open>str\<close> is the list of its code points, each the integer that
    \<^verbatim>\<open>ord\<close> gives (\<open>pystr\<close>); \<open>py\<close> turns an ASCII literal into such a string and \<open>ch\<close>
    an ASCII character into its code point;
  \<^item> \<^verbatim>\<open>Optional[str]\<close> is \<open>pystr option\<close>, \<^verbatim>\<open>None\<close> is \<open>None\<close>;
  \<^item> a \<^verbatim>\<open>dict\<close> with string keys and string values (the system records, the
    mapping table \<^verbatim>\<open>Dict[str, str]\<close>, the normalized game records
    \<^verbatim>\<open>Dict[str, str]\<close>) is an association list in insertion order, with each key once;
    \<^verbatim>\<open>d.get(k)\<close> is \<open>map_of d k\<close> and \<^verbatim>\<open>d[k] = v\<close> is \<open>AList.update k v d\<close>;
  \<^item> the values are typed as the annotations of the source say: with every field a string,
    no method call of the source can fail, so the functions have no error result; the one
    exception that can leave \<open>generate_feed\<close> is that of \<^verbatim>\<open>mkdir\<close>;
  \<^item> \<^verbatim>\<open>str.lower\<close> is a function of the Unicode character database of the Python
    runtime, which is no part of the source: the functions that call it take it as the
    parameter \<open>lower\<close>, and what is proved holds for every such function;
  \<^item> calls of \<^verbatim>\<open>logging\<close> have no effect on any result and are left out.
\<close>

subsection \<open>Python string primitives\<close>

type_synonym pychar = int

type_synonym pystr = "int list"

type_synonym pydict = "(pystr \<times> pystr) list"

definition ch :: "char \<Rightarrow> pychar" where
  "ch c = of_char c"

definition py :: "string \<Rightarrow> pystr" where
  "py s = map ch s"

text \<open>Truth value of an \<^verbatim>\<open>Optional[str]\<close>: \<^verbatim>\<open>None\<close> and \<^verbatim>\<open>""\<close> are false.\<close>

fun truthy :: "pystr option \<Rightarrow> bool" where
  "truthy None = False"
| "truthy (Some s) = (s \<noteq> [])"

text \<open>\<^verbatim>\<open>a or b\<close>: the left operand when it is true, the right operand otherwise.\<close>

definition py_or :: "pystr option \<Rightarrow> pystr option \<Rightarrow> pystr option" where
  "py_or a b = (if truthy a then a else b)"

text \<open>\<^verbatim>\<open>x or ""\<close> for an optional string \<open>x\<close>.\<close>

fun or_empty :: "pystr option \<Rightarrow> pystr" where
  "or_empty None = []"
| "or_empty (Some s) = s"

text \<open>\<^verbatim>\<open>x or None\<close> for a string \<open>x\<close>.\<close>

definition or_none :: "pystr \<Rightarrow> pystr option" where
  "or_none s = (if s \<noteq> [] then Some s else None)"

text \<open>
  The characters that \<^verbatim>\<open>str.strip()\<close> removes, those for which \<^verbatim>\<open>str.isspace\<close> holds:
  the ASCII controls U+0009 to U+000D and U+001C to U+001F, the space, and the Unicode
  white space U+0085, U+00A0, U+1680, U+2000 to U+200A, U+2028, U+2029, U+202F, U+205F and
  U+3000.
\<close>

definition py_isspace :: "pychar \<Rightarrow> bool" where
  "py_isspace c \<longleftrightarrow>
     c \<in> set [0x09, 0x0A, 0x0B, 0x0C, 0x0D, 0x1C, 0x1D, 0x1E, 0x1F, 0x20, 0x85, 0xA0, 0x1680,
              0x2000, 0x2001, 0x2002, 0x2003, 0x2004, 0x2005, 0x2006, 0x2007, 0x2008, 0x2009,
              0x200A, 0x2028, 0x2029, 0x202F, 0x205F, 0x3000]"

definition py_lstrip :: "pystr \<Rightarrow> pystr" where
  "py_lstrip s = dropWhile py_isspace s"

definition py_rstrip :: "pystr \<Rightarrow> pystr" where
  "py_rstrip s = rev (dropWhile py_isspace (rev s))"

definition py_strip :: "pystr \<Rightarrow> pystr" where
  "py_strip s = py_rstrip (py_lstrip s)"

text \<open>\<^verbatim>\<open>s.lstrip('/')\<close> and \<^verbatim>\<open>s.rstrip('/')\<close>.\<close>

definition lstrip_slash :: "pystr \<Rightarrow> pystr" where
  "lstrip_slash s = dropWhile (\<lambda>c. c = ch CHR ''/'') s"

definition rstrip_slash :: "pystr \<Rightarrow> pystr" where
  "rstrip_slash s = rev (dropWhile (\<lambda>c. c = ch CHR ''/'') (rev s))"

text \<open>
  Matching under \<^verbatim>\<open>re.IGNORECASE\<close>, for a pattern character that is a lower-case ASCII
  letter, a digit or a dot: it matches the characters that \<open>re_fold\<close> sends to it. An
  ASCII capital folds to its small letter; U+0130 and U+0131 (the dotted capital and the
  dotless small i) fold to \<open>i\<close>, U+017F (the long s) to \<open>s\<close> and U+212A (the Kelvin sign)
  to \<open>k\<close>; every other character matches only itself.
\<close>

definition re_fold :: "pychar \<Rightarrow> pychar" where
  "re_fold c =
     (if 0x41 \<le> c \<and> c \<le> 0x5A then c + 0x20
      else if c = 0x130 \<or> c = 0x131 then ch CHR ''i''
      else if c = 0x17F then ch CHR ''s''
      else if c = 0x212A then ch CHR ''k''
      else c)"

text \<open>
  \<^verbatim>\<open>s.split(sep)\<close> for a one-character separator: \<open>split_acc\<close> carries the piece being
  read. The result is never empty.
\<close>

fun split_acc :: "pychar \<Rightarrow> pystr \<Rightarrow> pystr \<Rightarrow> pystr list" where
  "split_acc sep cur [] = [cur]"
| "split_acc sep cur (c # cs) =
     (if c = sep then cur # split_acc sep [] cs else split_acc sep (cur @ [c]) cs)"

definition py_split :: "pychar \<Rightarrow> pystr \<Rightarrow> pystr list" where
  "py_split sep s = split_acc sep [] s"

subsection \<open>Game record normalizer\<close>

text \<open>
  A raw game entry as \<^verbatim>\<open>json.load\<close> can deliver it: an object, an array (of strings,
  as the annotation of \<^verbatim>\<open>normalized\<close> says), a string, or one of the other JSON
  values, for which none of the \<^verbatim>\<open>isinstance\<close> tests holds.
\<close>

datatype raw_entry =
    EDict pydict
  | EList "pystr list"
  | EStr pystr
  | ENull
  | EBool bool
  | ENum int

fun normalize_game_entry :: "raw_entry \<Rightarrow> pydict" where
  "normalize_game_entry (EDict d) = d"
| "normalize_game_entry (EList entry) =
     (let normalized = [];
          normalized = (if entry \<noteq> [] then AList.update (py ''title'') (entry ! 0) normalized
                        else normalized);
          normalized = (if length entry > 1 then AList.update (py ''url'') (entry ! 1) normalized
                        else normalized);
          normalized = (if length entry > 2 then AList.update (py ''size'') (entry ! 2) normalized
                        else normalized)
      in normalized)"
| "normalize_game_entry (EStr s) = [(py ''title'', s)]"
| "normalize_game_entry _ = []"

subsection \<open>Locator resolution and artwork\<close>

definition resolve_rom_url :: "pydict \<Rightarrow> pystr option \<Rightarrow> pystr option" where
  "resolve_rom_url game rom_prefix =
     (let url = py_or (py_or (map_of game (py ''url'')) (map_of game (py ''rom''))) (map_of game (py ''href''))
      in if truthy url then url
         else (case rom_prefix of
                 None \<Rightarrow> None
               | Some prefix \<Rightarrow>
                   if prefix \<noteq> [] then
                     (case py_or (map_of game (py ''path'')) (map_of game (py ''rom_path'')) of
                        None \<Rightarrow> None
                      | Some candidate \<Rightarrow>
                          if candidate \<noteq> [] then Some (prefix @ (py ''/'') @ lstrip_slash candidate)
                          else None)
                   else None))"

definition extract_thumbnail :: "pydict \<Rightarrow> pystr option" where
  "extract_thumbnail game =
     py_or (py_or (map_of game (py ''img'')) (map_of game (py ''thumbnail''))) (map_of game (py ''image''))"

definition extract_background :: "pydict \<Rightarrow> pystr option" where
  "extract_background game =
     py_or (py_or (map_of game (py ''background'')) (map_of game (py ''banner'')))
           (map_of game (py ''screenshot''))"

subsection \<open>Library functions used by the title deriver\<close>

text \<open>
  \<^verbatim>\<open>urllib.parse.unquote\<close> with its defaults (UTF-8, \<^verbatim>\<open>errors='replace'\<close>). Each maximal
  run of ASCII characters is turned into bytes by \<open>unquote_to_bytes\<close>: every
  \<^verbatim>\<open>%\<close> followed by two hexadecimal digits (of either case) becomes the byte with that
  value, any other \<^verbatim>\<open>%\<close> stays. The bytes of the run are then decoded as UTF-8. The
  characters outside ASCII stay as they are.
\<close>

definition hexval :: "pychar \<Rightarrow> int option" where
  "hexval c = map_of (zip (py ''0123456789ABCDEFabcdef'')
                          [0, 1, 2, 3, 4, 5, 6, 7, 8, 9, 10, 11, 12, 13, 14, 15,
                           10, 11, 12, 13, 14, 15]) c"

fun unquote_to_bytes :: "pystr \<Rightarrow> int list" where
  "unquote_to_bytes [] = []"
| "unquote_to_bytes [c] = [c]"
| "unquote_to_bytes [c, d] = [c, d]"
| "unquote_to_bytes (c # h1 # h2 # rest) =
     (if c = ch CHR ''%'' then
        (case (hexval h1, hexval h2) of
           (Some a, Some b) \<Rightarrow> (16 * a + b) # unquote_to_bytes rest
         | _ \<Rightarrow> c # unquote_to_bytes (h1 # h2 # rest))
      else c # unquote_to_bytes (h1 # h2 # rest))"

text \<open>
  \<^verbatim>\<open>bytes.decode('utf-8', 'replace')\<close>. A well-formed sequence of one to four bytes
  gives its code point; overlong forms, surrogates and values beyond U+10FFFF are not
  well-formed. A byte that cannot start a sequence gives U+FFFD. A start byte followed by a
  byte that cannot continue it gives one U+FFFD for the bytes of the sequence read so far,
  and decoding goes on at the offending byte. A sequence cut short by the end of the input
  gives one U+FFFD.
\<close>

definition continuation :: "int \<Rightarrow> bool" where
  "continuation b \<longleftrightarrow> 0x80 \<le> b \<and> b < 0xC0"

definition bad_second :: "int \<Rightarrow> int \<Rightarrow> bool" where
  "bad_second b b2 \<longleftrightarrow>
     \<not> continuation b2
     \<or> (b = 0xE0 \<and> b2 < 0xA0) \<or> (b = 0xED \<and> 0xA0 \<le> b2)
     \<or> (b = 0xF0 \<and> b2 < 0x90) \<or> (b = 0xF4 \<and> 0x90 \<le> b2)"

fun utf8_decode :: "int list \<Rightarrow> pystr" where
  "utf8_decode [] = []"
| "utf8_decode (b # bs) =
     (if b < 0x80 then b # utf8_decode bs
      else if b < 0xC2 \<or> 0xF5 \<le> b then 0xFFFD # utf8_decode bs
      else (case bs of
              [] \<Rightarrow> [0xFFFD]
            | b2 # bs2 \<Rightarrow>
                if bad_second b b2 then 0xFFFD # utf8_decode bs
                else if b < 0xE0 then ((b - 0xC0) * 0x40 + (b2 - 0x80)) # utf8_decode bs2
                else (case bs2 of
                        [] \<Rightarrow> [0xFFFD]
                      | b3 # bs3 \<Rightarrow>
                          if \<not> continuation b3 then 0xFFFD # utf8_decode bs2
                          else if b < 0xF0
                          then (((b - 0xE0) * 0x40 + (b2 - 0x80)) * 0x40 + (b3 - 0x80))
                                 # utf8_decode bs3
                          else (case bs3 of
                                  [] \<Rightarrow> [0xFFFD]
                                | b4 # bs4 \<Rightarrow>
                                    if \<not> continuation b4 then 0xFFFD # utf8_decode bs3
                                    else ((((b - 0xF0) * 0x40 + (b2 - 0x80)) * 0x40
                                             + (b3 - 0x80)) * 0x40 + (b4 - 0x80))
                                           # utf8_decode bs4))))"

text \<open>
  \<open>unquote_runs s run\<close> reads \<open>s\<close> with the ASCII run collected so far in \<open>run\<close>; a
  character outside ASCII ends the run.
\<close>

fun unquote_runs :: "pystr \<Rightarrow> pystr \<Rightarrow> pystr" where
  "unquote_runs [] run = utf8_decode (unquote_to_bytes run)"
| "unquote_runs (c # cs) run =
     (if 0 \<le> c \<and> c < 0x80 then unquote_runs cs (run @ [c])
      else utf8_decode (unquote_to_bytes run) @ c # unquote_runs cs [])"

definition unquote :: "pystr \<Rightarrow> pystr" where
  "unquote s = (if ch CHR ''%'' \<notin> set s then s else unquote_runs s [])"

text \<open>
  \<^verbatim>\<open>os.path.splitext\<close> of \<^verbatim>\<open>posixpath\<close>: \<^verbatim>\<open>rfind\<close> gives the last index of a character or
  \<open>-1\<close>; the extension starts at the last dot when that dot lies after the last \<^verbatim>\<open>/\<close> and
  some character between them is not a dot (\<open>skip_dots\<close> is the \<^verbatim>\<open>while\<close> loop).
\<close>

definition rfind :: "pychar \<Rightarrow> pystr \<Rightarrow> int" where
  "rfind c s =
     (if c \<in> set s then int (length s) - 1 - int (length (takeWhile (\<lambda>x. x \<noteq> c) (rev s)))
      else - 1)"

function skip_dots :: "pystr \<Rightarrow> nat \<Rightarrow> nat \<Rightarrow> bool" where
  "skip_dots p filenameIndex dotIndex =
     (if filenameIndex < dotIndex then
        (if p ! filenameIndex \<noteq> (ch CHR ''.'') then True
         else skip_dots p (Suc filenameIndex) dotIndex)
      else False)"
  by pat_completeness auto
termination
  by (relation "measure (\<lambda>(p, i, d). d - i)") auto

declare skip_dots.simps [simp del]

definition splitext :: "pystr \<Rightarrow> pystr \<times> pystr" where
  "splitext p =
     (let sepIndex = rfind (ch CHR ''/'') p;
          dotIndex = rfind (ch CHR ''.'') p
      in if dotIndex > sepIndex \<and> skip_dots p (nat (sepIndex + 1)) (nat dotIndex)
         then (take (nat dotIndex) p, drop (nat dotIndex) p)
         else (p, []))"

subsection \<open>Title deriver\<close>

text \<open>
  \<^verbatim>\<open>ROM_EXT_RE\<close> is \<^verbatim>\<open>\.(zip|7z|...|img)$\<close> with \<^verbatim>\<open>re.IGNORECASE\<close>. A match starts at a
  dot and runs to the end of the string; Python's \<^verbatim>\<open>$\<close> also matches just before a
  newline that ends the string. \<open>rom_ext_sub\<close> is \<^verbatim>\<open>ROM_EXT_RE.sub("", s)\<close>: it scans
  from the left and deletes the match.
\<close>

definition ROM_EXTS :: "pystr list" where
  "ROM_EXTS = [py ''zip'', py ''7z'', py ''chd'', py ''rar'', py ''iso'', py ''bin'', py ''cue'', py ''gba'', py ''gbc'',
               py ''gb'', py ''nes'', py ''sfc'', py ''smc'', py ''smd'', py ''md'', py ''pce'', py ''iso'', py ''img'']"

definition ext_at_end :: "pystr \<Rightarrow> bool" where
  "ext_at_end s \<longleftrightarrow>
     (case s of [] \<Rightarrow> False | c # cs \<Rightarrow> c = ch CHR ''.'' \<and> map re_fold cs \<in> set ROM_EXTS)"

definition ext_before_newline :: "pystr \<Rightarrow> bool" where
  "ext_before_newline s \<longleftrightarrow> s \<noteq> [] \<and> last s = ch CHR 0x0A \<and> ext_at_end (butlast s)"

fun rom_ext_sub :: "pystr \<Rightarrow> pystr" where
  "rom_ext_sub [] = []"
| "rom_ext_sub (c # cs) =
     (if ext_at_end (c # cs) then []
      else if ext_before_newline (c # cs) then [(ch CHR 0x0A)]
      else c # rom_ext_sub cs)"

definition derive_title_from_url :: "pystr \<Rightarrow> pystr option" where
  "derive_title_from_url url =
     (if url = [] then None
      else (let segment = unquote (last (py_split (ch CHR ''/'') url));
                root = fst (splitext segment)
            in Some (if root \<noteq> [] then root else segment)))"

definition clean_title :: "pystr option \<Rightarrow> pystr option \<Rightarrow> pystr option" where
  "clean_title raw_title rom_url =
     (let candidate = py_strip (or_empty raw_title);
          candidate = (if candidate \<noteq> [] then py_strip (rom_ext_sub candidate) else candidate);
          candidate = (case rom_url of
                         None \<Rightarrow> candidate
                       | Some u \<Rightarrow>
                           if candidate = [] \<and> u \<noteq> []
                           then py_strip (rom_ext_sub (or_empty (derive_title_from_url u)))
                           else candidate)
      in or_none candidate)"

subsection \<open>Mapping resolver\<close>

text \<open>
  The loop over \<^verbatim>\<open>mapping.items()\<close>: the value of the first key whose lower case is
  \<open>lowered\<close>.
\<close>

fun scan_items :: "(pystr \<Rightarrow> pystr) \<Rightarrow> pydict \<Rightarrow> pystr \<Rightarrow> pystr option" where
  "scan_items lower [] lowered = None"
| "scan_items lower ((key, val) # rest) lowered =
     (if lower key = lowered then Some val else scan_items lower rest lowered)"

definition map_system_name :: "(pystr \<Rightarrow> pystr) \<Rightarrow> pydict \<Rightarrow> pydict \<Rightarrow> pystr option" where
  "map_system_name lower system mapping =
     (case py_or (map_of system (py ''name'')) (map_of system (py ''platform_name'')) of
        None \<Rightarrow> None
      | Some name \<Rightarrow>
          if name = [] then None
          else if truthy (map_of mapping name) then map_of mapping name
          else (case (case map_of system (py ''folder'') of
                        None \<Rightarrow> None
                      | Some folder \<Rightarrow>
                          if folder \<noteq> [] then
                            (let mapped = py_or (map_of mapping folder)
                                                (map_of mapping (lower folder))
                             in if truthy mapped then mapped else None)
                          else None) of
                  Some mapped \<Rightarrow> Some mapped
                | None \<Rightarrow> scan_items lower mapping (lower name)))"

subsection \<open>Item builder\<close>

text \<open>
  A feed item: the keys \<^verbatim>\<open>title\<close>, \<^verbatim>\<open>type\<close> and \<^verbatim>\<open>props.rom\<close> are always set; the keys
  \<^verbatim>\<open>thumbnail\<close> and \<^verbatim>\<open>background\<close> exist only when the field is \<open>Some\<close>.
\<close>

record item =
  i_title :: pystr
  i_type :: pystr
  i_rom :: pystr
  i_thumbnail :: "pystr option"
  i_background :: "pystr option"

text \<open>One pass of the loop body: \<open>None\<close> is the \<^verbatim>\<open>continue\<close>, \<open>Some\<close> the appended item.\<close>

definition build_item :: "raw_entry \<Rightarrow> pystr \<Rightarrow> pystr option \<Rightarrow> item option" where
  "build_item raw_game system_type rom_prefix =
     (let game = normalize_game_entry raw_game;
          rom_url = resolve_rom_url game rom_prefix;
          title = clean_title (py_or (map_of game (py ''title'')) (map_of game (py ''name''))) rom_url
      in if \<not> truthy title \<or> \<not> truthy rom_url then None
         else (let thumbnail = extract_thumbnail game;
                   background = extract_background game
               in Some \<lparr>i_title = or_empty title, i_type = system_type, i_rom = or_empty rom_url,
                          i_thumbnail = (if truthy thumbnail then thumbnail else None),
                          i_background = (if truthy background then background else None)\<rparr>))"

fun build_items_loop :: "raw_entry list \<Rightarrow> pystr \<Rightarrow> pystr option \<Rightarrow> item list \<Rightarrow> item list" where
  "build_items_loop [] system_type rom_prefix items = items"
| "build_items_loop (raw_game # games) system_type rom_prefix items =
     (case build_item raw_game system_type rom_prefix of
        None \<Rightarrow> build_items_loop games system_type rom_prefix items
      | Some it \<Rightarrow> build_items_loop games system_type rom_prefix (items @ [it]))"

definition build_items :: "raw_entry list \<Rightarrow> pystr \<Rightarrow> pystr option \<Rightarrow> item list" where
  "build_items games system_type rom_prefix = build_items_loop games system_type rom_prefix []"

subsection \<open>Configuration\<close>

text \<open>
  The fields of \<^verbatim>\<open>Config\<close> that the transformation reads. The path-valued fields only say
  which files are loaded and where the feed is written; loading and writing are parameters of
  the model (see \<open>world\<close> below).

  \<open>build_config\<close> reads the environment: \<open>env k\<close> is \<^verbatim>\<open>os.environ.get(k)\<close>, and \<open>now\<close> is
  the text of \<^verbatim>\<open>datetime.utcnow().isoformat()\<close>.
\<close>

record config =
  feed_title :: pystr
  feed_description :: pystr
  category_prefix :: pystr
  rom_prefix_url :: "pystr option"
  neogeo_bios_url :: "pystr option"
  psx_bios_urls :: "pystr list option"

definition env_get :: "(string \<Rightarrow> pystr option) \<Rightarrow> string \<Rightarrow> pystr \<Rightarrow> pystr" where
  "env_get env k dflt = (case env k of None \<Rightarrow> dflt | Some v \<Rightarrow> v)"

definition DEFAULT_NEOGEO_BIOS_URL :: pystr where
  "DEFAULT_NEOGEO_BIOS_URL = py ''https://archive.org/download/neogeoaesmvscomplete/BIOS/neogeo.zip''"

definition DEFAULT_PSX_BIOS_URLS :: pystr where
  "DEFAULT_PSX_BIOS_URLS =
     (py ''https://psx.arthus.net/roms/bios/scph5500.bin,https://psx.arthus.net/roms/bios/scph5501.bin,https://psx.arthus.net/roms/bios/scph5502.bin'')"

definition parse_psx_bios :: "pystr \<Rightarrow> pystr list option" where
  "parse_psx_bios psx_bios_env =
     (if psx_bios_env \<noteq> []
      then Some (map py_strip (filter (\<lambda>url. py_strip url \<noteq> []) (py_split (ch CHR '','') psx_bios_env)))
      else None)"

definition build_config :: "(string \<Rightarrow> pystr option) \<Rightarrow> pystr \<Rightarrow> config" where
  "build_config env now =
     (let rom_prefix_url = env ''ROM_PREFIX_URL'';
          neogeo_bios_url = env_get env ''NEOGEO_BIOS_URL'' DEFAULT_NEOGEO_BIOS_URL;
          psx_bios_env = env_get env ''PSX_BIOS_URLS'' DEFAULT_PSX_BIOS_URLS
      in \<lparr>feed_title = env_get env ''FEED_TITLE'' (py ''RGSX Library''),
          feed_description =
            env_get env ''FEED_DESCRIPTION'' ((py ''Generated from RGSX caches on '') @ now @ (py ''Z'')),
          category_prefix = env_get env ''FEED_CATEGORY_PREFIX'' [],
          rom_prefix_url =
            (if truthy rom_prefix_url then Some (rstrip_slash (or_empty rom_prefix_url)) else None),
          neogeo_bios_url = Some neogeo_bios_url,
          psx_bios_urls = parse_psx_bios psx_bios_env\<rparr>)"

subsection \<open>Feed assembler\<close>

datatype prop_value = PStr pystr | PList "pystr list"

record category =
  c_title :: pystr
  c_items :: "item list"

text \<open>The feed document; \<open>f_props = None\<close> is a feed without the key \<^verbatim>\<open>props\<close>.\<close>

record feed =
  f_title :: pystr
  f_longTitle :: pystr
  f_description :: pystr
  f_categories :: "category list"
  f_props :: "(string \<times> prop_value) list option"

text \<open>
  What \<open>generate_feed\<close> finds outside: the result of \<^verbatim>\<open>load_json\<close> on the systems file and
  on the mapping file, the result of \<^verbatim>\<open>load_json\<close> on the games file of a system (a
  function of the system's display name), whether \<^verbatim>\<open>mkdir\<close> succeeds and whether
  opening and writing the output file succeeds; and \<^verbatim>\<open>str.lower\<close> of the runtime.
\<close>

record world =
  load_systems :: "pydict list option"
  load_mapping :: "pydict option"
  load_games :: "pystr \<Rightarrow> raw_entry list option"
  mkdir_ok :: bool
  write_ok :: bool
  str_lower :: "pystr \<Rightarrow> pystr"

text \<open>
  What a run leaves behind: the value returned, or the \<^verbatim>\<open>OSError\<close> that
  \<^verbatim>\<open>mkdir\<close> raises outside the \<^verbatim>\<open>try\<close>; the feed printed to standard output; the feed
  written to the output file.
\<close>

datatype outcome = Returned int | Raised_OSError

record run =
  result :: outcome
  printed :: "feed option"
  written :: "feed option"

definition feed_props :: "config \<Rightarrow> (string \<times> prop_value) list" where
  "feed_props cfg =
     (let feed_props = [];
          feed_props = (if truthy (neogeo_bios_url cfg)
                        then AList.update ''neogeo_bios'' (PStr (or_empty (neogeo_bios_url cfg)))
                               feed_props
                        else feed_props);
          feed_props = (case psx_bios_urls cfg of
                          None \<Rightarrow> feed_props
                        | Some urls \<Rightarrow>
                            if urls \<noteq> [] then AList.update ''psx_bios'' (PList urls) feed_props
                            else feed_props)
      in feed_props)"

definition system_display_name :: "pydict \<Rightarrow> pystr" where
  "system_display_name system =
     (let n = py_or (map_of system (py ''platform_name'')) (map_of system (py ''name''))
      in if truthy n then or_empty n else (py ''Unknown''))"

text \<open>
  One pass of the body of the loop over the systems: \<open>None\<close> is a \<^verbatim>\<open>continue\<close>, \<open>Some\<close>
  the category appended. In \<open>process_systems\<close>, \<open>cats\<close> is \<^verbatim>\<open>feed["categories"]\<close>.
\<close>

definition process_system :: "config \<Rightarrow> world \<Rightarrow> pydict \<Rightarrow> pydict \<Rightarrow> category option" where
  "process_system cfg w mapping system =
     (let system_type = map_system_name (str_lower w) system mapping
      in if \<not> truthy system_type then None
         else (let system_name = system_display_name system
               in case load_games w system_name of
                    None \<Rightarrow> None
                  | Some games \<Rightarrow>
                      (let items = build_items games (or_empty system_type) (rom_prefix_url cfg)
                       in if items = [] then None
                          else Some \<lparr>c_title = category_prefix cfg @ system_name,
                                     c_items = items\<rparr>)))"

fun process_systems ::
  "config \<Rightarrow> world \<Rightarrow> pydict \<Rightarrow> pydict list \<Rightarrow> category list \<Rightarrow> category list" where
  "process_systems cfg w mapping [] cats = cats"
| "process_systems cfg w mapping (system # systems) cats =
     (case process_system cfg w mapping system of
        None \<Rightarrow> process_systems cfg w mapping systems cats
      | Some c \<Rightarrow> process_systems cfg w mapping systems (cats @ [c]))"

definition generate_feed :: "config \<Rightarrow> bool \<Rightarrow> world \<Rightarrow> run" where
  "generate_feed cfg dry_run w =
     (case load_systems w of
        None \<Rightarrow> \<lparr>result = Returned 1, printed = None, written = None\<rparr>
      | Some systems \<Rightarrow>
          (case load_mapping w of
             None \<Rightarrow> \<lparr>result = Returned 1, printed = None, written = None\<rparr>
           | Some mapping \<Rightarrow>
               (let fd = \<lparr>f_title = feed_title cfg, f_longTitle = feed_title cfg,
                          f_description = feed_description cfg, f_categories = [],
                          f_props = None\<rparr>;
                    fd = (if feed_props cfg \<noteq> [] then fd\<lparr>f_props := Some (feed_props cfg)\<rparr>
                          else fd);
                    fd = fd\<lparr>f_categories := process_systems cfg w mapping systems []\<rparr>
                in if f_categories fd = []
                   then \<lparr>result = Returned 1, printed = None, written = None\<rparr>
                   else if dry_run
                   then \<lparr>result = Returned 0, printed = Some fd, written = None\<rparr>
                   else if \<not> mkdir_ok w
                   then \<lparr>result = Raised_OSError, printed = None, written = None\<rparr>
                   else if \<not> write_ok w
                   then \<lparr>result = Returned 1, printed = None, written = None\<rparr>
                   else \<lparr>result = Returned 0, printed = None, written = Some fd\<rparr>)))"

section \<open>The specification's vocabulary\<close>

text \<open>
  The definitions of this section do not come from the source: they phrase what the
  specification says, for comparison with the functions above.
\<close>

text \<open>
  ``The first present and non-empty of the fields \<open>ks\<close>'': the candidate keys are consulted in
  order and the first one that is set to a non-empty string wins.
\<close>

fun spec_first_nonempty :: "pydict \<Rightarrow> pystr list \<Rightarrow> pystr option" where
  "spec_first_nonempty game [] = None"
| "spec_first_nonempty game (k # ks) =
     (case map_of game k of
        None \<Rightarrow> spec_first_nonempty game ks
      | Some v \<Rightarrow> if v \<noteq> [] then Some v else spec_first_nonempty game ks)"

text \<open>``The first present of the fields \<open>ks\<close>'': the first key that is set at all wins.\<close>

fun spec_first_present :: "pydict \<Rightarrow> pystr list \<Rightarrow> pystr option" where
  "spec_first_present game [] = None"
| "spec_first_present game (k # ks) =
     (case map_of game k of
        None \<Rightarrow> spec_first_present game ks
      | Some v \<Rightarrow> Some v)"

text \<open>
  The resolved locator and the cleaned title of a raw entry (steps 1 to 3 of the item
  builder), and the entries that survive step 4: those for which both are present.
\<close>

definition entry_locator :: "pystr option \<Rightarrow> raw_entry \<Rightarrow> pystr option" where
  "entry_locator rom_prefix raw_game = resolve_rom_url (normalize_game_entry raw_game) rom_prefix"

definition entry_title :: "pystr option \<Rightarrow> raw_entry \<Rightarrow> pystr option" where
  "entry_title rom_prefix raw_game =
     (let game = normalize_game_entry raw_game
      in clean_title (py_or (map_of game (py ''title'')) (map_of game (py ''name'')))
           (resolve_rom_url game rom_prefix))"

definition survives :: "pystr option \<Rightarrow> raw_entry \<Rightarrow> bool" where
  "survives rom_prefix raw_game \<longleftrightarrow>
     entry_title rom_prefix raw_game \<noteq> None \<and> entry_locator rom_prefix raw_game \<noteq> None"

text \<open>``First hit wins'': the first of two lookups that yields a value.\<close>

fun first_some :: "'a option \<Rightarrow> 'a option \<Rightarrow> 'a option" where
  "first_some (Some v) b = Some v"
| "first_some None b = b"

text \<open>
  The name a system record exposes (\<open>name\<close>, else \<open>platform_name\<close>), its folder, and the
  case-insensitive scan of all keys of the mapping table against the lower-cased name.
\<close>

definition usable_name :: "pydict \<Rightarrow> pystr option" where
  "usable_name system = spec_first_nonempty system [py ''name'', py ''platform_name'']"

definition system_folder :: "pydict \<Rightarrow> pystr option" where
  "system_folder system = spec_first_nonempty system [py ''folder'']"

definition spec_scan :: "(pystr \<Rightarrow> pystr) \<Rightarrow> pydict \<Rightarrow> pystr \<Rightarrow> pystr option" where
  "spec_scan lower mapping name =
     map_option snd (find (\<lambda>kv. lower (fst kv) = lower name) mapping)"

text \<open>
  The lookup rules of the mapping resolver as the specification states them: a rule hits
  when the key is in the table.
\<close>

definition spec_map_system_name ::
  "(pystr \<Rightarrow> pystr) \<Rightarrow> pydict \<Rightarrow> pydict \<Rightarrow> pystr option" where
  "spec_map_system_name lower system mapping =
     (case usable_name system of
        None \<Rightarrow> None
      | Some name \<Rightarrow>
          first_some (map_of mapping name)
            (first_some
               (case system_folder system of
                  None \<Rightarrow> None
                | Some folder \<Rightarrow>
                    first_some (map_of mapping folder) (map_of mapping (lower folder)))
               (spec_scan lower mapping name)))"

text \<open>
  The same rules where an exact lookup (of the name, of the folder, of the lower-cased
  folder) hits only when the key is in the table with a non-empty value.
\<close>

definition nonempty_hit :: "pydict \<Rightarrow> pystr \<Rightarrow> pystr option" where
  "nonempty_hit mapping k = spec_first_nonempty mapping [k]"

definition folder_rule :: "(pystr \<Rightarrow> pystr) \<Rightarrow> pydict \<Rightarrow> pydict \<Rightarrow> pystr option" where
  "folder_rule lower system mapping =
     (case system_folder system of
        None \<Rightarrow> None
      | Some folder \<Rightarrow>
          first_some (nonempty_hit mapping folder) (nonempty_hit mapping (lower folder)))"

definition lookup_rules :: "(pystr \<Rightarrow> pystr) \<Rightarrow> pydict \<Rightarrow> pydict \<Rightarrow> pystr option" where
  "lookup_rules lower system mapping =
     (case usable_name system of
        None \<Rightarrow> None
      | Some name \<Rightarrow>
          first_some (nonempty_hit mapping name)
            (first_some (folder_rule lower system mapping) (spec_scan lower mapping name)))"

text \<open>The feed a run emitted, on either channel, and a feed-wide property of a feed.\<close>

definition emitted :: "run \<Rightarrow> feed option" where
  "emitted r = first_some (printed r) (written r)"

definition feed_prop :: "feed \<Rightarrow> string \<Rightarrow> prop_value option" where
  "feed_prop fd k = (case f_props fd of None \<Rightarrow> None | Some ps \<Rightarrow> map_of ps k)"

text \<open>
  The final path segment of a URL, the text after its last slash, and the title deriver as
  the specification states it.
\<close>

fun final_segment :: "pystr \<Rightarrow> pystr" where
  "final_segment [] = []"
| "final_segment (c # cs) =
     (if (ch CHR ''/'') \<in> set cs then final_segment cs
      else if c = ch CHR ''/'' then cs
      else c # cs)"

definition spec_derive_title :: "pystr \<Rightarrow> pystr option" where
  "spec_derive_title url =
     (let segment = unquote (final_segment url)
      in if segment = [] then None
         else (let stripped = fst (splitext segment)
               in Some (if stripped = [] then segment else stripped)))"

text \<open>
  A string ends in the extension \<open>e\<close> when its last characters are a dot and, up to the
  case folding of the pattern, \<open>e\<close>; it carries a recognized trailing extension when some
  extension of \<open>ROM_EXTS\<close> is one. \<open>title_from_locator\<close> is the fall-back of the title cleaner.
\<close>

definition is_ext_of :: "pystr \<Rightarrow> pystr \<Rightarrow> bool" where
  "is_ext_of e s \<longleftrightarrow>
     Suc (length e) \<le> length s \<and> drop (length s - Suc (length e)) (map re_fold s) = ch CHR ''.'' # e"

definition ends_with_rom_ext :: "pystr \<Rightarrow> bool" where
  "ends_with_rom_ext s \<longleftrightarrow> list_ex (\<lambda>e. is_ext_of e s) ROM_EXTS"

definition title_from_locator :: "pystr option \<Rightarrow> pystr option" where
  "title_from_locator rom_url =
     (case rom_url of
        None \<Rightarrow> None
      | Some url \<Rightarrow>
          (case derive_title_from_url url of
             None \<Rightarrow> None
           | Some derived \<Rightarrow> or_none (py_strip (rom_ext_sub derived))))"

text \<open>
  Sample inputs: \<^verbatim>\<open>str.lower\<close> on strings of Latin-1 characters (the capitals are
  \<open>A\<close> to \<open>Z\<close> and U+00C0 to U+00DE without the multiplication sign); a run with one mapped
  system that has one valid game and one unmapped system; a run where no system yields a
  category; the configuration of an empty environment.
\<close>

definition latin1_lower :: "pystr \<Rightarrow> pystr" where
  "latin1_lower s =
     map (\<lambda>c. if (0x41 \<le> c \<and> c \<le> 0x5A) \<or> (0xC0 \<le> c \<and> c \<le> 0xDE \<and> c \<noteq> 0xD7) then c + 0x20
              else c) s"

definition scenario_world :: world where
  "scenario_world =
     \<lparr>load_systems = Some [[(py ''name'', py ''Sega Genesis''), (py ''platform_name'', py ''Mega Drive'')],
                           [(py ''name'', py ''Switch'')]],
      load_mapping = Some [(py ''Sega Genesis'', py ''genesis'')],
      load_games = (\<lambda>n. if n = py ''Mega Drive''
                          then Some [EList [py ''Sonic (USA).zip'', py ''https://x/sonic.zip'', py ''4M'']]
                          else None),
      mkdir_ok = True, write_ok = True, str_lower = latin1_lower\<rparr>"

definition unmapped_world :: world where
  "unmapped_world =
     \<lparr>load_systems = Some [[(py ''name'', py ''Switch'')], [(py ''name'', py ''Sega Genesis'')]],
      load_mapping = Some [(py ''Sega Genesis'', py ''genesis'')],
      load_games = (\<lambda>n. if n = (py ''Sega Genesis'') then Some [EStr (py ''Sonic'')] else None),
      mkdir_ok = True, write_ok = True, str_lower = latin1_lower\<rparr>"

definition default_config :: config where
  "default_config = build_config (\<lambda>k. None) (py ''2024-01-01T00:00:00'')"

section \<open>Properties\<close>

subsection \<open>Literals\<close>

lemma ch_eq_iff [simp]: "ch c = ch d \<longleftrightarrow> c = d"
  by (simp add: ch_def)

lemma py_eq_iff [simp]: "py a = py b \<longleftrightarrow> a = b"
  by (simp add: py_def inj_map_eq_map inj_on_def)

lemma py_simps [simp]: "py [] = []" "py (c # cs) = ch c # py cs" "py (a @ b) = py a @ py b"
  by (simp_all add: py_def)

subsection \<open>Truth values and first-wins chains\<close>

lemma or3_first_nonempty:
  "(if truthy (py_or (py_or (map_of g a) (map_of g b)) (map_of g c))
    then py_or (py_or (map_of g a) (map_of g b)) (map_of g c) else None)
   = spec_first_nonempty g [a, b, c]"
  by (cases "map_of g a"; cases "map_of g b"; cases "map_of g c") (simp_all add: py_or_def)

lemma or2_first_nonempty:
  "(if truthy (py_or (map_of g a) (map_of g b)) then py_or (map_of g a) (map_of g b) else None)
   = spec_first_nonempty g [a, b]"
  by (cases "map_of g a"; cases "map_of g b") (simp_all add: py_or_def)

lemma first_nonempty_not_empty: "spec_first_nonempty g ks \<noteq> Some []"
  by (induction ks) (auto split: option.splits)

lemma truthy_iff: "x \<noteq> Some [] \<Longrightarrow> truthy x \<longleftrightarrow> x \<noteq> None"
  by (cases x) auto

lemma resolve_rom_url_not_empty: "resolve_rom_url game rom_prefix \<noteq> Some []"
  by (auto simp: resolve_rom_url_def Let_def split: option.splits if_splits)

lemma clean_title_not_empty: "clean_title raw_title rom_url \<noteq> Some []"
  by (simp add: clean_title_def Let_def or_none_def)

subsection \<open>The normalizer\<close>

text \<open>
  Claim C8. \<open>normalize_game_entry\<close> returns a record for every input and has no failing
  branch: a record passes through unchanged; a sequence gives \<open>title\<close> from position 0,
  \<open>url\<close> from position 1 and \<open>size\<close> from position 2, each only when the sequence is long
  enough, and ignores what follows; a string gives a record with \<open>title\<close> only; every other
  value gives the empty record. Normalizing the record that the normalizer returned gives
  that record again.
\<close>

theorem normalize_game_entry_total:
  "normalize_game_entry (EDict d) = d
   \<and> normalize_game_entry (EList []) = []
   \<and> normalize_game_entry (EList [t]) = [(py ''title'', t)]
   \<and> normalize_game_entry (EList [t, u]) = [(py ''title'', t), (py ''url'', u)]
   \<and> normalize_game_entry (EList (t # u # z # trailing))
       = [(py ''title'', t), (py ''url'', u), (py ''size'', z)]
   \<and> normalize_game_entry (EStr s) = [(py ''title'', s)]
   \<and> normalize_game_entry ENull = []
   \<and> normalize_game_entry (EBool b) = []
   \<and> normalize_game_entry (ENum n) = []
   \<and> normalize_game_entry (EDict (normalize_game_entry e)) = normalize_game_entry e"
  by simp

theorem normalize_game_entry_total_witness:
  "normalize_game_entry
     (EList [py ''Mega Example (USA).zip'', py ''https://example.com/r.zip'', py ''512K'', py ''extra''])
     = [(py ''title'', py ''Mega Example (USA).zip''), (py ''url'', py ''https://example.com/r.zip''),
        (py ''size'', py ''512K'')]
   \<and> normalize_game_entry (EDict (normalize_game_entry (EStr (py ''Pong'')))) = [(py ''title'', py ''Pong'')]"
  using normalize_game_entry_total [of "[]" "(py ''Mega Example (USA).zip'')"
      "(py ''https://example.com/r.zip'')" "(py ''512K'')" "[py ''extra'']" "(py ''Pong'')" True 0 "EStr (py ''Pong'')"]
  by simp

subsection \<open>The locator\<close>

text \<open>
  Claim C7. \<open>resolve_rom_url\<close> returns the first present and non-empty of the fields
  \<open>url\<close>, \<open>rom\<close>, \<open>href\<close>; failing that, when a prefix is configured (present and not the
  empty string) and one of \<open>path\<close>, \<open>rom_path\<close> is present and non-empty, the prefix, a
  slash and the first such path without its leading slashes; in every other case, also when
  a path exists and no prefix is configured, nothing.
\<close>

theorem resolve_rom_url_precedence:
  "resolve_rom_url game rom_prefix =
     (case spec_first_nonempty game [py ''url'', py ''rom'', py ''href''] of
        Some u \<Rightarrow> Some u
      | None \<Rightarrow>
          (case rom_prefix of
             None \<Rightarrow> None
           | Some prefix \<Rightarrow>
               if prefix = [] then None
               else (case spec_first_nonempty game [py ''path'', py ''rom_path''] of
                       None \<Rightarrow> None
                     | Some p \<Rightarrow> Some (prefix @ (py ''/'') @ dropWhile (\<lambda>c. c = ch CHR ''/'') p))))"
proof -
  let ?u = "py_or (py_or (map_of game (py ''url'')) (map_of game (py ''rom''))) (map_of game (py ''href''))"
  let ?p = "py_or (map_of game (py ''path'')) (map_of game (py ''rom_path''))"
  have u: "spec_first_nonempty game [py ''url'', py ''rom'', py ''href''] = (if truthy ?u then ?u else None)"
    by (rule or3_first_nonempty [symmetric])
  have p: "spec_first_nonempty game [py ''path'', py ''rom_path''] = (if truthy ?p then ?p else None)"
    by (rule or2_first_nonempty [symmetric])
  show ?thesis
    unfolding u p resolve_rom_url_def Let_def lstrip_slash_def
    by (cases ?u; cases ?p; cases rom_prefix) auto
qed

theorem resolve_rom_url_precedence_witness:
  "resolve_rom_url [(py ''url'', []), (py ''href'', py ''h''), (py ''path'', py ''p'')] None = Some (py ''h'')
   \<and> resolve_rom_url [(py ''rom_path'', py ''//a/b.zip'')] (Some (py ''http://host''))
       = Some (py ''http://host/a/b.zip'')
   \<and> resolve_rom_url [(py ''path'', py ''a.zip'')] None = None"
  using resolve_rom_url_precedence [of "[(py ''url'', []), (py ''href'', py ''h''), (py ''path'', py ''p'')]" None]
    resolve_rom_url_precedence [of "[(py ''rom_path'', py ''//a/b.zip'')]" "Some (py ''http://host'')"]
    resolve_rom_url_precedence [of "[(py ''path'', py ''a.zip'')]" None]
  by simp

subsection \<open>Deriving a title from a locator\<close>

lemma split_acc_nonempty: "split_acc sep cur s \<noteq> []"
  by (induction s arbitrary: cur) auto

lemma last_split_acc:
  "last (split_acc (ch CHR ''/'') cur s) = (if (ch CHR ''/'') \<in> set s then final_segment s else cur @ s)"
proof (induction s arbitrary: cur)
  case Nil
  then show ?case by simp
next
  case (Cons c cs)
  show ?case
    using Cons [of "[]"] Cons [of "cur @ [c]"] split_acc_nonempty by auto
qed

lemma last_py_split: "last (py_split (ch CHR ''/'') url) = final_segment url"
proof (cases "(ch CHR ''/'') \<in> set url")
  case True
  then show ?thesis by (simp add: py_split_def last_split_acc)
next
  case False
  then have "final_segment url = url"
    by (induction url) auto
  with False show ?thesis by (simp add: py_split_def last_split_acc)
qed

lemma skip_dots_less: "skip_dots p i d \<Longrightarrow> i < d"
  by (subst (asm) skip_dots.simps) (auto split: if_splits)

lemma splitext_root_empty: "fst (splitext p) = [] \<longleftrightarrow> p = []"
proof
  assume "p = []"
  then show "fst (splitext p) = []"
    by (simp add: splitext_def rfind_def Let_def)
next
  assume e: "fst (splitext p) = []"
  show "p = []"
  proof (rule ccontr)
    assume ne: "p \<noteq> []"
    let ?sep = "rfind (ch CHR ''/'') p" and ?dot = "rfind (ch CHR ''.'') p"
    have c: "?dot > ?sep \<and> skip_dots p (nat (?sep + 1)) (nat ?dot)"
      using e ne by (auto simp: splitext_def Let_def split: if_splits)
    then have "0 < nat ?dot"
      using skip_dots_less [of p "nat (?sep + 1)" "nat ?dot"] by simp
    moreover have "fst (splitext p) = take (nat ?dot) p"
      using c by (simp add: splitext_def Let_def)
    ultimately show False
      using e ne by simp
  qed
qed

lemma splitext_Nil: "splitext [] = ([], [])"
  by (simp add: splitext_def rfind_def)

lemma derive_title_from_url_root:
  "derive_title_from_url url =
     (if url = [] then None else Some (fst (splitext (unquote (final_segment url)))))"
  by (simp add: derive_title_from_url_def Let_def last_py_split splitext_root_empty splitext_Nil)

text \<open>
  Claim C4, amended. For the empty URL the result is absent. For any other URL the result is
  the final path segment (the text after the last slash), percent-decoded, without its file
  extension. What is left after removing the extension is empty only when the decoded segment
  is empty, so the fall-back to the whole segment changes nothing; for an empty segment the
  result is the empty string. Whenever the decoded segment is not empty the function is the
  one the specification describes, and the URL of the specification's example gives
  \<open>Mega Example (USA)\<close>.
\<close>

theorem derive_title_from_url_segment:
  "derive_title_from_url [] = None
   \<and> (url \<noteq> [] \<longrightarrow>
        derive_title_from_url url = Some (fst (splitext (unquote (final_segment url)))))
   \<and> (fst (splitext segment) = [] \<longleftrightarrow> segment = [])
   \<and> (unquote (final_segment url) \<noteq> [] \<longrightarrow> derive_title_from_url url = spec_derive_title url)
   \<and> (url \<noteq> [] \<and> unquote (final_segment url) = [] \<longrightarrow> derive_title_from_url url = Some [])
   \<and> derive_title_from_url (py ''https://x/y/Mega%20Example%20%28USA%29.zip'')
       = Some (py ''Mega Example (USA)'')"
proof -
  have x: "derive_title_from_url (py ''https://x/y/Mega%20Example%20%28USA%29.zip'')
       = Some (py ''Mega Example (USA)'')"
    by code_simp
  have u: "unquote (final_segment url) \<noteq> [] \<Longrightarrow> url \<noteq> []"
    by (auto simp: unquote_def)
  show ?thesis
    using x u
    by (auto simp: derive_title_from_url_root spec_derive_title_def Let_def splitext_root_empty
          splitext_Nil)
qed

text \<open>
  Claim C4, as it is worded, fails for a URL that ends in a slash: the segment is empty, the
  specification says the result is absent, and the code returns the empty string.
\<close>

theorem derive_title_from_url_segment_counterexample:
  "derive_title_from_url (py ''https://x/y/'') = Some []
   \<and> spec_derive_title (py ''https://x/y/'') = None"
  by code_simp

theorem derive_title_from_url_segment_witness:
  "derive_title_from_url (py ''https://x/y/a%2Eb.tar.gz'') = Some (py ''a.b.tar'')
   \<and> derive_title_from_url (py ''https://x/y/'') = Some []
   \<and> spec_derive_title (py ''sonic.zip'') = Some (py ''sonic'')
   \<and> derive_title_from_url (py ''https://x/Pok%E9mon.zip'') = Some (py ''Pok'' @ [0xFFFD] @ py ''mon'')
   \<and> derive_title_from_url (py ''https://x/%C2%A0.zip'') = Some [0xA0]"
proof -
  have n: "(py ''https://x/y/a%2Eb.tar.gz'') \<noteq> []" "(py ''https://x/y/'') \<noteq> []"
    "py ''https://x/Pok%E9mon.zip'' \<noteq> []" "py ''https://x/%C2%A0.zip'' \<noteq> []"
    by simp_all
  have t: "fst (splitext (unquote (final_segment (py ''https://x/Pok%E9mon.zip''))))
             = py ''Pok'' @ [0xFFFD] @ py ''mon''"
    "fst (splitext (unquote (final_segment (py ''https://x/%C2%A0.zip'')))) = [0xA0]"
    by code_simp+
  have 4: "derive_title_from_url (py ''https://x/Pok%E9mon.zip'')
             = Some (py ''Pok'' @ [0xFFFD] @ py ''mon'')"
    using derive_title_from_url_segment [where url = "py ''https://x/Pok%E9mon.zip''"] n(3) t(1)
    by simp
  have 5: "derive_title_from_url (py ''https://x/%C2%A0.zip'') = Some [0xA0]"
    using derive_title_from_url_segment [where url = "py ''https://x/%C2%A0.zip''"] n(4) t(2)
    by simp
  have s: "fst (splitext (unquote (final_segment (py ''https://x/y/a%2Eb.tar.gz'')))) = py ''a.b.tar''"
    "unquote (final_segment (py ''https://x/y/'')) = []"
    "unquote (final_segment (py ''sonic.zip'')) \<noteq> []"
    "derive_title_from_url (py ''sonic.zip'') = Some (py ''sonic'')"
    by code_simp+
  have 1: "derive_title_from_url (py ''https://x/y/a%2Eb.tar.gz'') = Some (py ''a.b.tar'')"
    using derive_title_from_url_segment [where url = "(py ''https://x/y/a%2Eb.tar.gz'')"] n(1) s(1)
    by simp
  have 2: "derive_title_from_url (py ''https://x/y/'') = Some []"
    using derive_title_from_url_segment [where url = "(py ''https://x/y/'')"] n(2) s(2)
    by blast
  have "derive_title_from_url (py ''sonic.zip'') = spec_derive_title (py ''sonic.zip'')"
    using derive_title_from_url_segment [where url = "(py ''sonic.zip'')"] s(3)
    by blast
  then have 3: "spec_derive_title (py ''sonic.zip'') = Some (py ''sonic'')"
    using s(4) by simp
  from 1 2 3 4 5 show ?thesis by simp
qed

subsection \<open>Cleaning a title\<close>

lemma re_fold_dot [simp]: "re_fold (ch CHR ''.'') = ch CHR ''.''"
  by (simp add: re_fold_def ch_def)

lemma re_fold_newline: "re_fold (ch CHR 0x0A) = ch CHR 0x0A"
  by (simp add: re_fold_def ch_def)

lemma rom_ext_no_dot: "x \<in> set ROM_EXTS \<Longrightarrow> (ch CHR ''.'') \<notin> set x"
  by (auto simp: ROM_EXTS_def)

lemma rom_ext_no_newline: "x \<in> set ROM_EXTS \<Longrightarrow> (ch CHR 0x0A) \<notin> set x"
  by (auto simp: ROM_EXTS_def)

lemma rom_ext_nonempty: "x \<in> set ROM_EXTS \<Longrightarrow> x \<noteq> []"
  by (auto simp: ROM_EXTS_def)

lemma ext_last_not_newline:
  assumes "map re_fold e \<in> set ROM_EXTS"
  shows "e \<noteq> []" and "last e \<noteq> (ch CHR 0x0A)"
proof -
  show ne: "e \<noteq> []"
    using rom_ext_nonempty [OF assms] by auto
  show "last e \<noteq> (ch CHR 0x0A)"
  proof
    assume "last e = ch CHR 0x0A"
    then have "(ch CHR 0x0A) \<in> set e" using ne last_in_set by metis
    then have "re_fold (ch CHR 0x0A) \<in> set (map re_fold e)" by auto
    then show False using rom_ext_no_newline [OF assms] by (simp only: re_fold_newline)
  qed
qed

lemma rom_ext_sub_strips:
  assumes "map re_fold e \<in> set ROM_EXTS"
  shows "rom_ext_sub (s @ (ch CHR ''.'') # e) = s"
proof (induction s)
  case Nil
  then show ?case using assms by (simp add: ext_at_end_def)
next
  case (Cons c s)
  have 1: "\<not> ext_at_end (c # s @ (ch CHR ''.'') # e)"
  proof
    assume "ext_at_end (c # s @ (ch CHR ''.'') # e)"
    then have "map re_fold (s @ (ch CHR ''.'') # e) \<in> set ROM_EXTS"
      by (simp add: ext_at_end_def)
    from rom_ext_no_dot [OF this] show False
      by simp
  qed
  have "last (c # s @ (ch CHR ''.'') # e) = last e"
    using ext_last_not_newline(1) [OF assms] by simp
  then have 2: "\<not> ext_before_newline (c # s @ (ch CHR ''.'') # e)"
    using ext_last_not_newline(2) [OF assms] by (simp add: ext_before_newline_def)
  show ?case
    using 1 2 Cons by simp
qed

lemma is_ext_of_Cons:
  assumes "is_ext_of e cs"
  shows "is_ext_of e (c # cs)"
proof -
  have l: "Suc (length e) \<le> length cs"
    and d: "drop (length cs - Suc (length e)) (map re_fold cs) = ch CHR ''.'' # e"
    using assms by (simp_all add: is_ext_of_def)
  have "length (c # cs) - Suc (length e) = Suc (length cs - Suc (length e))"
    using l by simp
  then have "drop (length (c # cs) - Suc (length e)) (map re_fold (c # cs)) = ch CHR ''.'' # e"
    using d by (simp only: list.map drop_Suc_Cons)
  then show ?thesis
    using l by (simp add: is_ext_of_def)
qed

lemma rom_ext_sub_unchanged:
  assumes "\<not> ends_with_rom_ext s" and "s = [] \<or> last s \<noteq> (ch CHR 0x0A)"
  shows "rom_ext_sub s = s"
  using assms
proof (induction s)
  case Nil
  then show ?case by simp
next
  case (Cons c cs)
  have 1: "\<not> ext_at_end (c # cs)"
  proof
    assume "ext_at_end (c # cs)"
    then have "c = ch CHR ''.''" and m: "map re_fold cs \<in> set ROM_EXTS"
      by (simp_all add: ext_at_end_def)
    then have "is_ext_of (map re_fold cs) (c # cs)"
      by (simp add: is_ext_of_def)
    with m have "ends_with_rom_ext (c # cs)"
      by (auto simp: ends_with_rom_ext_def list_ex_iff)
    with Cons.prems(1) show False by simp
  qed
  have 2: "\<not> ext_before_newline (c # cs)"
    using Cons.prems(2) by (simp add: ext_before_newline_def)
  have 3: "\<not> ends_with_rom_ext cs"
    using Cons.prems(1) is_ext_of_Cons by (auto simp: ends_with_rom_ext_def list_ex_iff)
  have 4: "cs = [] \<or> last cs \<noteq> (ch CHR 0x0A)"
    using Cons.prems(2) by (cases cs) auto
  show ?case
    using 1 2 Cons.IH [OF 3 4] by simp
qed

lemma py_strip_last:
  assumes "py_strip s \<noteq> []"
  shows "\<not> py_isspace (last (py_strip s))"
proof -
  let ?r = "dropWhile py_isspace (rev (py_lstrip s))"
  have ne: "?r \<noteq> []" using assms by (simp add: py_strip_def py_rstrip_def)
  have "last (py_strip s) = hd ?r"
    using ne by (simp add: py_strip_def py_rstrip_def last_rev)
  moreover have "\<not> py_isspace (hd ?r)"
    using ne hd_dropWhile by blast
  ultimately show ?thesis by simp
qed

lemma py_strip_no_newline: "py_strip s = [] \<or> last (py_strip s) \<noteq> (ch CHR 0x0A)"
proof (cases "py_strip s = []")
  case True
  then show ?thesis by simp
next
  case False
  moreover have "py_isspace (ch CHR 0x0A)" by (simp add: py_isspace_def ch_def)
  ultimately show ?thesis using py_strip_last [of s] by metis
qed

lemma py_strip_empty: "py_strip [] = []"
  by (simp add: py_strip_def py_rstrip_def py_lstrip_def)

lemma dropWhile_id: "xs = [] \<or> \<not> P (hd xs) \<Longrightarrow> dropWhile P xs = xs"
  by (cases xs) auto

lemma py_strip_hd:
  assumes "py_strip s \<noteq> []"
  shows "\<not> py_isspace (hd (py_strip s))"
proof -
  let ?l = "py_lstrip s"
  have "takeWhile py_isspace (rev ?l) @ dropWhile py_isspace (rev ?l) = rev ?l"
    by (rule takeWhile_dropWhile_id)
  then have "rev (takeWhile py_isspace (rev ?l) @ dropWhile py_isspace (rev ?l)) = rev (rev ?l)"
    by (rule arg_cong)
  then have "?l = rev (dropWhile py_isspace (rev ?l)) @ rev (takeWhile py_isspace (rev ?l))"
    by (simp only: rev_append rev_rev_ident)
  then have l: "?l = py_strip s @ rev (takeWhile py_isspace (rev ?l))"
    by (simp only: py_strip_def py_rstrip_def)
  then have "?l \<noteq> []" using assms by auto
  then have "\<not> py_isspace (hd ?l)"
    unfolding py_lstrip_def using hd_dropWhile by blast
  moreover have "hd ?l = hd (py_strip s)"
    using l assms by (metis hd_append2)
  ultimately show ?thesis by simp
qed

lemma py_strip_idem: "py_strip (py_strip s) = py_strip s"
proof (cases "py_strip s = []")
  case True
  then show ?thesis by (simp add: py_strip_empty)
next
  case False
  have 1: "py_lstrip (py_strip s) = py_strip s"
    unfolding py_lstrip_def using py_strip_hd [OF False] by (intro dropWhile_id) simp
  have "\<not> py_isspace (hd (rev (py_strip s)))"
    using py_strip_last [OF False] False by (simp add: hd_rev)
  then have "dropWhile py_isspace (rev (py_strip s)) = rev (py_strip s)"
    by (intro dropWhile_id) simp
  then have 2: "py_rstrip (py_strip s) = py_strip s"
    by (simp add: py_rstrip_def)
  show ?thesis
    using 1 2 by (subst py_strip_def) simp
qed

lemma clean_title_fallback:
  "clean_title raw rom_url =
     (let candidate = py_strip (rom_ext_sub (py_strip (or_empty raw)))
      in if candidate \<noteq> [] then Some candidate else title_from_locator rom_url)"
proof -
  have e: "derive_title_from_url [] = None"
    by (simp add: derive_title_from_url_def)
  have z: "py_strip [] = []"
    by (simp add: py_strip_def py_rstrip_def py_lstrip_def)
  show ?thesis
    by (cases rom_url; cases "derive_title_from_url (or_empty rom_url)")
       (auto simp: clean_title_def title_from_locator_def Let_def or_none_def e z
             derive_title_from_url_def)
qed

text \<open>
  Claim C3. The recognized extensions are the seventeen of the specification. When the
  trimmed title ends in a dot and a recognized extension, in any case (as the pattern folds
  case, \<open>re_fold\<close>), \<open>clean_title\<close> removes that one extension and nothing more (the stem
  may itself end in an extension) and trims again. Trimming removes all the white space of
  \<^verbatim>\<open>str.strip()\<close>. A title without a recognized trailing extension is only trimmed, so a
  non-empty title that is already trimmed and has no such extension is returned unchanged.
  When nothing is left of the title, the result is the title derived from the locator by
  \<open>derive_title_from_url\<close>, with the same removal of an extension and the same trimming,
  and absent without a locator.
\<close>

theorem clean_title_strips_one:
  "set ROM_EXTS = set [py ''zip'', py ''7z'', py ''chd'', py ''rar'', py ''iso'', py ''bin'', py ''cue'', py ''gba'', py ''gbc'',
                       py ''gb'', py ''nes'', py ''sfc'', py ''smc'', py ''smd'', py ''md'', py ''pce'', py ''img'']
   \<and> (map re_fold ext \<in> set ROM_EXTS \<and> py_strip (or_empty raw) = stem @ (py ''.'') @ ext \<longrightarrow>
        clean_title raw rom_url
          = (if py_strip stem \<noteq> [] then Some (py_strip stem) else title_from_locator rom_url))
   \<and> (py_strip (or_empty raw) \<noteq> [] \<and> \<not> ends_with_rom_ext (py_strip (or_empty raw)) \<longrightarrow>
        clean_title raw rom_url = Some (py_strip (or_empty raw)))
   \<and> (title \<noteq> [] \<and> py_strip title = title \<and> \<not> ends_with_rom_ext title \<longrightarrow>
        clean_title (Some title) rom_url = Some title)
   \<and> (py_strip (rom_ext_sub (py_strip (or_empty raw))) = [] \<longrightarrow>
        clean_title raw rom_url = title_from_locator rom_url)
   \<and> (derive_title_from_url url = Some derived \<longrightarrow>
        title_from_locator (Some url) = or_none (py_strip (rom_ext_sub derived)))
   \<and> title_from_locator None = None"
proof -
  have 0: "set ROM_EXTS = set [py ''zip'', py ''7z'', py ''chd'', py ''rar'', py ''iso'', py ''bin'', py ''cue'', py ''gba'',
      py ''gbc'', py ''gb'', py ''nes'', py ''sfc'', py ''smc'', py ''smd'', py ''md'', py ''pce'', py ''img'']"
    by (auto simp: ROM_EXTS_def)
  have 1: "map re_fold ext \<in> set ROM_EXTS \<and> py_strip (or_empty raw) = stem @ (py ''.'') @ ext \<longrightarrow>
        clean_title raw rom_url
          = (if py_strip stem \<noteq> [] then Some (py_strip stem) else title_from_locator rom_url)"
    by (simp add: clean_title_fallback rom_ext_sub_strips Let_def)
  have unchanged: "clean_title r rom_url = Some (py_strip (or_empty r))"
    if a: "py_strip (or_empty r) \<noteq> []" "\<not> ends_with_rom_ext (py_strip (or_empty r))" for r
  proof -
    have "rom_ext_sub (py_strip (or_empty r)) = py_strip (or_empty r)"
      using a(2) py_strip_no_newline by (rule rom_ext_sub_unchanged)
    then show ?thesis
      using a(1) by (simp add: clean_title_fallback Let_def py_strip_idem)
  qed
  have 2: "py_strip (or_empty raw) \<noteq> [] \<and> \<not> ends_with_rom_ext (py_strip (or_empty raw)) \<longrightarrow>
        clean_title raw rom_url = Some (py_strip (or_empty raw))"
    using unchanged [of raw] by blast
  have 3: "title \<noteq> [] \<and> py_strip title = title \<and> \<not> ends_with_rom_ext title \<longrightarrow>
        clean_title (Some title) rom_url = Some title"
    using unchanged [of "Some title"] by simp
  have 4: "py_strip (rom_ext_sub (py_strip (or_empty raw))) = [] \<longrightarrow>
        clean_title raw rom_url = title_from_locator rom_url"
    by (simp add: clean_title_fallback Let_def)
  have 5: "derive_title_from_url url = Some derived \<longrightarrow>
        title_from_locator (Some url) = or_none (py_strip (rom_ext_sub derived))"
    by (simp add: title_from_locator_def)
  have 6: "title_from_locator None = None"
    by (simp add: title_from_locator_def)
  from 0 1 2 3 4 5 6 show ?thesis by blast
qed

theorem clean_title_strips_one_witness:
  "clean_title (Some (py ''  Mega Example (USA).ZIP '')) None = Some (py ''Mega Example (USA)'')
   \<and> clean_title (Some (py ''Tetris.gb.zip'')) None = Some (py ''Tetris.gb'')
   \<and> clean_title (Some (py ''Sonic (USA)'')) (Some (py ''https://x/other.zip'')) = Some (py ''Sonic (USA)'')
   \<and> clean_title (Some (py ''.zip'')) (Some (py ''https://x/y/Mega%20Example%20%28USA%29.zip''))
       = Some (py ''Mega Example (USA)'')
   \<and> clean_title (Some ([0xA0] @ py ''game.'' @ [0x131] @ py ''so'' @ [0x2003])) None
       = Some (py ''game'')
   \<and> clean_title None (Some (py ''https://x/%C2%A0.zip'')) = None"
proof -
  have z6: "py_strip (rom_ext_sub (py_strip (or_empty None))) = []"
    by code_simp
  have d6: "derive_title_from_url (py ''https://x/%C2%A0.zip'') = Some [0xA0]"
    by code_simp
  have r6: "or_none (py_strip (rom_ext_sub [0xA0])) = None"
    by code_simp
  have "clean_title None (Some (py ''https://x/%C2%A0.zip''))
      = title_from_locator (Some (py ''https://x/%C2%A0.zip''))"
    using clean_title_strips_one [where raw = None
        and rom_url = "Some (py ''https://x/%C2%A0.zip'')"] z6
    by blast
  moreover have "title_from_locator (Some (py ''https://x/%C2%A0.zip''))
      = or_none (py_strip (rom_ext_sub [0xA0]))"
    using clean_title_strips_one [where url = "py ''https://x/%C2%A0.zip''"
        and derived = "[0xA0]"] d6
    by blast
  ultimately have 6: "clean_title None (Some (py ''https://x/%C2%A0.zip'')) = None"
    using r6 by simp
  have e5: "map re_fold ([0x131] @ py ''so'') \<in> set ROM_EXTS"
    by code_simp
  have s5: "py_strip (or_empty (Some ([0xA0] @ py ''game.'' @ [0x131] @ py ''so'' @ [0x2003])))
              = py ''game'' @ py ''.'' @ ([0x131] @ py ''so'')"
    "py_strip (py ''game'') = py ''game''"
    by code_simp+
  have 5: "clean_title (Some ([0xA0] @ py ''game.'' @ [0x131] @ py ''so'' @ [0x2003])) None
      = Some (py ''game'')"
    using clean_title_strips_one [where ext = "[0x131] @ py ''so''" and stem = "py ''game''"
        and raw = "Some ([0xA0] @ py ''game.'' @ [0x131] @ py ''so'' @ [0x2003])"
        and rom_url = None] e5 s5
    by simp
  have e: "map re_fold (py ''ZIP'') \<in> set ROM_EXTS" "map re_fold (py ''zip'') \<in> set ROM_EXTS"
    by code_simp+
  have s: "py_strip (or_empty (Some (py ''  Mega Example (USA).ZIP '')))
             = (py ''Mega Example (USA)'') @ (py ''.'') @ (py ''ZIP'')"
    "py_strip (or_empty (Some (py ''Tetris.gb.zip''))) = (py ''Tetris.gb'') @ (py ''.'') @ (py ''zip'')"
    "py_strip (py ''Mega Example (USA)'') = py ''Mega Example (USA)''"
    "py_strip (py ''Tetris.gb'') = py ''Tetris.gb''"
    "py_strip (py ''Sonic (USA)'') = py ''Sonic (USA)''"
    by code_simp+
  have 1: "clean_title (Some (py ''  Mega Example (USA).ZIP '')) None = Some (py ''Mega Example (USA)'')"
    using clean_title_strips_one [where ext = "(py ''ZIP'')" and stem = "(py ''Mega Example (USA)'')"
        and raw = "Some (py ''  Mega Example (USA).ZIP '')" and rom_url = None] e(1) s(1,3)
    by simp
  have 2: "clean_title (Some (py ''Tetris.gb.zip'')) None = Some (py ''Tetris.gb'')"
    using clean_title_strips_one [where ext = "(py ''zip'')" and stem = "(py ''Tetris.gb'')"
        and raw = "Some (py ''Tetris.gb.zip'')" and rom_url = None] e(2) s(2,4)
    by simp
  have n: "\<not> ends_with_rom_ext (py ''Sonic (USA)'')"
    by code_simp
  have 3: "clean_title (Some (py ''Sonic (USA)'')) (Some (py ''https://x/other.zip'')) = Some (py ''Sonic (USA)'')"
    using clean_title_strips_one [where title = "(py ''Sonic (USA)'')"
        and rom_url = "Some (py ''https://x/other.zip'')"] n s(5)
    by simp
  have z: "py_strip (rom_ext_sub (py_strip (or_empty (Some (py ''.zip''))))) = []"
    by code_simp
  have d: "derive_title_from_url (py ''https://x/y/Mega%20Example%20%28USA%29.zip'')
      = Some (py ''Mega Example (USA)'')"
    by code_simp
  have r: "or_none (py_strip (rom_ext_sub (py ''Mega Example (USA)''))) = Some (py ''Mega Example (USA)'')"
    by code_simp
  have "clean_title (Some (py ''.zip'')) (Some (py ''https://x/y/Mega%20Example%20%28USA%29.zip''))
      = title_from_locator (Some (py ''https://x/y/Mega%20Example%20%28USA%29.zip''))"
    using clean_title_strips_one [where raw = "Some (py ''.zip'')"
        and rom_url = "Some (py ''https://x/y/Mega%20Example%20%28USA%29.zip'')"] z
    by blast
  moreover have "title_from_locator (Some (py ''https://x/y/Mega%20Example%20%28USA%29.zip''))
      = or_none (py_strip (rom_ext_sub (py ''Mega Example (USA)'')))"
    using clean_title_strips_one [where url = "(py ''https://x/y/Mega%20Example%20%28USA%29.zip'')"
        and derived = "(py ''Mega Example (USA)'')"] d
    by blast
  ultimately have 4: "clean_title (Some (py ''.zip''))
      (Some (py ''https://x/y/Mega%20Example%20%28USA%29.zip'')) = Some (py ''Mega Example (USA)'')"
    using r by simp
  from 1 2 3 4 5 6 show ?thesis by simp
qed

subsection \<open>The item builder\<close>

lemma build_item_None: "survives rp g \<longleftrightarrow> build_item g t rp \<noteq> None"
  unfolding build_item_def survives_def entry_title_def entry_locator_def Let_def
  by (simp add: truthy_iff [OF clean_title_not_empty] truthy_iff [OF resolve_rom_url_not_empty])

lemma build_item_Some:
  assumes "build_item g t rp = Some it"
  shows "Some (i_title it) = entry_title rp g" and "Some (i_rom it) = entry_locator rp g"
    and "i_type it = t"
    and "i_thumbnail it
           = spec_first_nonempty (normalize_game_entry g) [py ''img'', py ''thumbnail'', py ''image'']"
    and "i_background it
           = spec_first_nonempty (normalize_game_entry g) [py ''background'', py ''banner'', py ''screenshot'']"
    and "i_title it \<noteq> []" and "i_rom it \<noteq> []"
  using assms
  unfolding build_item_def entry_title_def entry_locator_def Let_def extract_thumbnail_def
    extract_background_def or3_first_nonempty
  by (auto split: if_splits simp: clean_title_not_empty resolve_rom_url_not_empty
        truthy_iff [OF clean_title_not_empty] truthy_iff [OF resolve_rom_url_not_empty])

text \<open>The loop appends to the accumulator what a single filtering pass produces.\<close>

lemma build_items_loop_acc:
  "build_items_loop games t rp items = items @ List.map_filter (\<lambda>g. build_item g t rp) games"
  by (induction games arbitrary: items) (auto split: option.splits)

lemma build_items_map_filter:
  "build_items games t rp = List.map_filter (\<lambda>g. build_item g t rp) games"
  by (simp add: build_items_def build_items_loop_acc)

lemma map_filter_map_Some:
  assumes "\<And>x y. f x = Some y \<Longrightarrow> h y = k x" and "\<And>x. P x \<longleftrightarrow> f x \<noteq> None"
  shows "map h (List.map_filter f xs) = map k (filter P xs)"
  by (induction xs) (auto simp: assms split: option.splits)

text \<open>
  Claim C1. \<open>build_items\<close> emits, in the order of the input, one item for each entry whose
  cleaned title and resolved locator are both present, carrying that title and that locator;
  an entry that lacks one of them gives no item (and the loop has no failing branch). So
  there are as many items as surviving entries, in their order, and every item has a
  non-empty title and a non-empty \<open>props.rom\<close>.
\<close>

theorem build_items_order_preserving:
  "map (\<lambda>it. (Some (i_title it), Some (i_rom it))) (build_items games system_type rom_prefix)
     = map (\<lambda>g. (entry_title rom_prefix g, entry_locator rom_prefix g))
           (filter (survives rom_prefix) games)
   \<and> length (build_items games system_type rom_prefix)
       = length (filter (survives rom_prefix) games)
   \<and> list_all (\<lambda>it. i_title it \<noteq> [] \<and> i_rom it \<noteq> [] \<and> i_type it = system_type)
        (build_items games system_type rom_prefix)"
proof -
  let ?f = "\<lambda>g. build_item g system_type rom_prefix"
  have 1: "map (\<lambda>it. (Some (i_title it), Some (i_rom it))) (List.map_filter ?f games)
     = map (\<lambda>g. (entry_title rom_prefix g, entry_locator rom_prefix g))
           (filter (survives rom_prefix) games)"
    by (rule map_filter_map_Some)
       (simp_all add: build_item_Some(1,2) build_item_None [of _ _ system_type])
  have 2: "length (List.map_filter ?f games) = length (filter (survives rom_prefix) games)"
    using arg_cong [OF 1, of length] by simp
  have 3: "list_all (\<lambda>it. i_title it \<noteq> [] \<and> i_rom it \<noteq> [] \<and> i_type it = system_type)
        (List.map_filter ?f games)"
    by (induction games) (auto simp: build_item_Some(3,6,7) split: option.splits)
  show ?thesis
    using 1 2 3 by (simp add: build_items_map_filter)
qed

theorem build_items_order_preserving_witness:
  "map (\<lambda>it. (Some (i_title it), Some (i_rom it)))
     (build_items [EStr (py ''No Locator''),
                   EList [py ''Sonic (USA).zip'', py ''https://x/sonic.zip'', py ''4M''],
                   ENull, EDict [(py ''url'', py ''https://x/%C2%A0.zip'')],
           EDict [(py ''path'', py ''/roms/b.nes'')]] (py ''genesis'') (Some (py ''http://h'')))
     = [(Some (py ''Sonic (USA)''), Some (py ''https://x/sonic.zip'')),
        (Some (py ''b''), Some (py ''http://h/roms/b.nes''))]"
proof -
  have "filter (survives (Some (py ''http://h'')))
          [EStr (py ''No Locator''), EList [py ''Sonic (USA).zip'', py ''https://x/sonic.zip'', py ''4M''],
           ENull, EDict [(py ''url'', py ''https://x/%C2%A0.zip'')],
           EDict [(py ''path'', py ''/roms/b.nes'')]]
        = [EList [py ''Sonic (USA).zip'', py ''https://x/sonic.zip'', py ''4M''],
           EDict [(py ''path'', py ''/roms/b.nes'')]]"
    by code_simp
  moreover have "entry_title (Some (py ''http://h''))
      (EList [py ''Sonic (USA).zip'', py ''https://x/sonic.zip'', py ''4M'']) = Some (py ''Sonic (USA)'')"
    by code_simp
  moreover have "entry_title (Some (py ''http://h'')) (EDict [(py ''path'', py ''/roms/b.nes'')]) = Some (py ''b'')"
    by code_simp
  moreover have "entry_locator (Some (py ''http://h''))
      (EList [py ''Sonic (USA).zip'', py ''https://x/sonic.zip'', py ''4M'']) = Some (py ''https://x/sonic.zip'')"
    by code_simp
  moreover have "entry_locator (Some (py ''http://h'')) (EDict [(py ''path'', py ''/roms/b.nes'')])
      = Some (py ''http://h/roms/b.nes'')"
    by code_simp
  ultimately show ?thesis
    using build_items_order_preserving [of
       "[EStr (py ''No Locator''), EList [py ''Sonic (USA).zip'', py ''https://x/sonic.zip'', py ''4M''],
         ENull, EDict [(py ''url'', py ''https://x/%C2%A0.zip'')],
           EDict [(py ''path'', py ''/roms/b.nes'')]]" "(py ''genesis'')" "Some (py ''http://h'')"]
    by simp
qed

text \<open>
  Claim C10, as it is worded, fails: with \<open>img\<close> set to the empty string and \<open>thumbnail\<close>
  set to \<open>t.png\<close>, the first present of the three fields is the empty string, and the
  item still carries a thumbnail, \<open>t.png\<close>.
\<close>

theorem build_items_artwork_counterexample:
  "map i_thumbnail
     (build_items [EDict [(py ''title'', py ''A''), (py ''url'', py ''u''), (py ''img'', []),
                          (py ''thumbnail'', py ''t.png'')]] (py ''nes'') None) = [Some (py ''t.png'')]
   \<and> spec_first_present
        [(py ''title'', py ''A''), (py ''url'', py ''u''), (py ''img'', []), (py ''thumbnail'', py ''t.png'')]
        [py ''img'', py ''thumbnail'', py ''image''] = Some []"
  by code_simp

text \<open>
  Claim C10, amended. The item of a surviving entry carries a thumbnail exactly when one of
  \<open>img\<close>, \<open>thumbnail\<close>, \<open>image\<close> is present and non-empty, and then the first such value;
  likewise a background for \<open>background\<close>, \<open>banner\<close>, \<open>screenshot\<close>. An empty string is
  never attached.
\<close>

theorem build_items_artwork:
  "map (\<lambda>it. (i_thumbnail it, i_background it)) (build_items games system_type rom_prefix)
     = map (\<lambda>g. (spec_first_nonempty (normalize_game_entry g)
                    [py ''img'', py ''thumbnail'', py ''image''],
                  spec_first_nonempty (normalize_game_entry g)
                    [py ''background'', py ''banner'', py ''screenshot'']))
           (filter (survives rom_prefix) games)
   \<and> list_all (\<lambda>it. i_thumbnail it \<noteq> Some [] \<and> i_background it \<noteq> Some [])
        (build_items games system_type rom_prefix)"
proof -
  let ?f = "\<lambda>g. build_item g system_type rom_prefix"
  have 1: "map (\<lambda>it. (i_thumbnail it, i_background it)) (List.map_filter ?f games)
     = map (\<lambda>g. (spec_first_nonempty (normalize_game_entry g)
                    [py ''img'', py ''thumbnail'', py ''image''],
                  spec_first_nonempty (normalize_game_entry g)
                    [py ''background'', py ''banner'', py ''screenshot'']))
           (filter (survives rom_prefix) games)"
    by (rule map_filter_map_Some)
       (simp_all add: build_item_Some(4,5) build_item_None [of _ _ system_type])
  have 2: "list_all (\<lambda>it. i_thumbnail it \<noteq> Some [] \<and> i_background it \<noteq> Some [])
        (List.map_filter ?f games)"
    by (induction games)
       (auto simp: build_item_Some(4,5) first_nonempty_not_empty
             simp del: spec_first_nonempty.simps split: option.splits)
  show ?thesis
    using 1 2 by (simp add: build_items_map_filter)
qed

theorem build_items_artwork_witness:
  "map (\<lambda>it. (i_thumbnail it, i_background it))
     (build_items [EDict [(py ''title'', py ''A''), (py ''url'', py ''u''), (py ''img'', []),
                          (py ''thumbnail'', py ''t.png''), (py ''banner'', [])],
                   EDict [(py ''title'', py ''B''), (py ''img'', py ''i.png'')]] (py ''nes'') None)
     = [(Some (py ''t.png''), None)]"
proof -
  have "filter (survives None)
          [EDict [(py ''title'', py ''A''), (py ''url'', py ''u''), (py ''img'', []),
                  (py ''thumbnail'', py ''t.png''), (py ''banner'', [])],
           EDict [(py ''title'', py ''B''), (py ''img'', py ''i.png'')]]
        = [EDict [(py ''title'', py ''A''), (py ''url'', py ''u''), (py ''img'', []),
                  (py ''thumbnail'', py ''t.png''), (py ''banner'', [])]]"
    by code_simp
  then show ?thesis
    using build_items_artwork [of
       "[EDict [(py ''title'', py ''A''), (py ''url'', py ''u''), (py ''img'', []),
                (py ''thumbnail'', py ''t.png''), (py ''banner'', [])],
         EDict [(py ''title'', py ''B''), (py ''img'', py ''i.png'')]]" "(py ''nes'')" None]
    by simp
qed

subsection \<open>The mapping resolver\<close>

lemma scan_items_spec: "scan_items lower mapping (lower name) = spec_scan lower mapping name"
  by (induction mapping) (auto simp: spec_scan_def)

lemma nonempty_hit_None: "nonempty_hit mapping k = None \<longleftrightarrow> \<not> truthy (map_of mapping k)"
  by (cases "map_of mapping k") (simp_all add: nonempty_hit_def)

lemma usable_name_or:
  "usable_name system =
     (case py_or (map_of system (py ''name'')) (map_of system (py ''platform_name'')) of
        None \<Rightarrow> None | Some name \<Rightarrow> if name = [] then None else Some name)"
  by (cases "map_of system (py ''name'')"; cases "map_of system (py ''platform_name'')")
     (simp_all add: usable_name_def py_or_def)

lemma folder_rule_or:
  "folder_rule lower system mapping =
     (case map_of system (py ''folder'') of
        None \<Rightarrow> None
      | Some folder \<Rightarrow>
          if folder \<noteq> [] then
            (let mapped = py_or (map_of mapping folder) (map_of mapping (lower folder))
             in if truthy mapped then mapped else None)
          else None)"
proof (cases "map_of system (py ''folder'')")
  case None
  then show ?thesis by (simp add: folder_rule_def system_folder_def)
next
  case (Some folder)
  then show ?thesis
    by (cases "map_of mapping folder"; cases "map_of mapping (lower folder)")
       (simp_all add: folder_rule_def system_folder_def nonempty_hit_def py_or_def Let_def)
qed

lemma map_system_name_lookup_rules: "map_system_name lower system mapping = lookup_rules lower system mapping"
proof (cases "usable_name system")
  case None
  then show ?thesis
    by (auto simp: map_system_name_def lookup_rules_def usable_name_or split: option.splits if_splits)
next
  case (Some name)
  then have n: "py_or (map_of system (py ''name'')) (map_of system (py ''platform_name'')) = Some name"
    and ne: "name \<noteq> []"
    by (auto simp: usable_name_or split: option.splits if_splits)
  show ?thesis
    unfolding map_system_name_def lookup_rules_def Some n folder_rule_or [symmetric]
    by (cases "map_of mapping name"; cases "folder_rule lower system mapping")
       (simp_all add: ne scan_items_spec nonempty_hit_def)
qed

lemma nonempty_hit_all_nonempty:
  "list_all (\<lambda>kv. snd kv \<noteq> []) mapping \<Longrightarrow> nonempty_hit mapping k = map_of mapping k"
proof (cases "map_of mapping k")
  case None
  then show ?thesis by (simp add: nonempty_hit_def)
next
  case (Some v)
  assume "list_all (\<lambda>kv. snd kv \<noteq> []) mapping"
  moreover have "(k, v) \<in> set mapping" using Some by (rule map_of_SomeD)
  ultimately have "v \<noteq> []" by (auto simp: list_all_iff)
  then show ?thesis using Some by (simp add: nonempty_hit_def)
qed

text \<open>
  Claim C2, amended. Whatever function \<open>lower\<close> the runtime has for \<^verbatim>\<open>str.lower\<close>,
  \<open>map_system_name\<close> applies the rules in this order, the first hit winning: the exact
  name, then for a record with a folder the exact folder and the lower-cased folder, then
  the case-insensitive scan of all keys against the lower-cased name (a key matches when
  its lower case is the lower case of the name); a lookup of the first three kinds hits only when the key is in the table with a
  non-empty value. Without a usable name or without a hit the result is absent, and the
  function has no failing branch. On a table that has no empty value the rules are those of
  the specification as it states them.
\<close>

theorem map_system_name_precedence:
  "map_system_name lower system mapping = lookup_rules lower system mapping
   \<and> (list_all (\<lambda>kv. snd kv \<noteq> []) mapping \<longrightarrow>
        map_system_name lower system mapping = spec_map_system_name lower system mapping)"
  by (simp add: map_system_name_lookup_rules lookup_rules_def spec_map_system_name_def
        folder_rule_def nonempty_hit_all_nonempty split: option.splits)

text \<open>
  Claim C2, as it is worded, fails on a table with an empty value: the name \<open>X\<close> is a key
  of the table, so the exact match of the name should win and give its value, the empty
  string; the code goes on to the folder rule and returns \<open>nes\<close>.
\<close>

theorem map_system_name_precedence_counterexample:
  "map_system_name latin1_lower [(py ''name'', py ''X''), (py ''folder'', py ''f'')] [(py ''X'', []), (py ''f'', py ''nes'')] = Some (py ''nes'')
   \<and> spec_map_system_name latin1_lower [(py ''name'', py ''X''), (py ''folder'', py ''f'')] [(py ''X'', []), (py ''f'', py ''nes'')] = Some []"
  by code_simp

theorem map_system_name_precedence_witness:
  "map_system_name latin1_lower [(py ''name'', py ''Sega Genesis''), (py ''folder'', py ''MD'')]
      [(py ''md'', py ''genesis''), (py ''sega genesis'', py ''sms'')] = Some (py ''genesis'')
   \<and> map_system_name latin1_lower [(py ''platform_name'', py ''NES'')] [(py ''md'', py ''genesis''), (py ''Nes'', py ''nes'')]
       = Some (py ''nes'')
   \<and> map_system_name latin1_lower [(py ''name'', py ''Switch'')] [(py ''md'', py ''genesis'')] = None
   \<and> map_system_name latin1_lower [(py ''name'', py ''POK'' @ [0xC9] @ py ''MON'')]
         [(py ''pok'' @ [0xE9] @ py ''mon'', py ''x'')] = Some (py ''x'')"
proof -
  have d: "list_all (\<lambda>kv. snd kv \<noteq> []) [(py ''pok'' @ [0xE9] @ py ''mon'', py ''x'')]"
    by simp
  have 4: "map_system_name latin1_lower [(py ''name'', py ''POK'' @ [0xC9] @ py ''MON'')]
         [(py ''pok'' @ [0xE9] @ py ''mon'', py ''x'')]
      = spec_map_system_name latin1_lower [(py ''name'', py ''POK'' @ [0xC9] @ py ''MON'')]
         [(py ''pok'' @ [0xE9] @ py ''mon'', py ''x'')]"
    using map_system_name_precedence [where lower = latin1_lower
        and system = "[(py ''name'', py ''POK'' @ [0xC9] @ py ''MON'')]"
        and mapping = "[(py ''pok'' @ [0xE9] @ py ''mon'', py ''x'')]"] d
    by blast
  have a: "list_all (\<lambda>kv. snd kv \<noteq> []) [(py ''md'', py ''genesis''), (py ''sega genesis'', py ''sms'')]"
    and b: "list_all (\<lambda>kv. snd kv \<noteq> []) [(py ''md'', py ''genesis''), (py ''Nes'', py ''nes'')]"
    and c: "list_all (\<lambda>kv. snd kv \<noteq> []) [(py ''md'', py ''genesis'')]"
    by simp_all
  have 1: "map_system_name latin1_lower [(py ''name'', py ''Sega Genesis''), (py ''folder'', py ''MD'')]
      [(py ''md'', py ''genesis''), (py ''sega genesis'', py ''sms'')]
      = spec_map_system_name latin1_lower [(py ''name'', py ''Sega Genesis''), (py ''folder'', py ''MD'')]
          [(py ''md'', py ''genesis''), (py ''sega genesis'', py ''sms'')]"
    using map_system_name_precedence [where lower = latin1_lower
        and system = "[(py ''name'', py ''Sega Genesis''), (py ''folder'', py ''MD'')]" and mapping = "[(py ''md'', py ''genesis''), (py ''sega genesis'', py ''sms'')]"] a
    by blast
  have 2: "map_system_name latin1_lower [(py ''platform_name'', py ''NES'')] [(py ''md'', py ''genesis''), (py ''Nes'', py ''nes'')]
      = spec_map_system_name latin1_lower [(py ''platform_name'', py ''NES'')] [(py ''md'', py ''genesis''), (py ''Nes'', py ''nes'')]"
    using map_system_name_precedence [where lower = latin1_lower
        and system = "[(py ''platform_name'', py ''NES'')]" and mapping = "[(py ''md'', py ''genesis''), (py ''Nes'', py ''nes'')]"] b
    by blast
  have 3: "map_system_name latin1_lower [(py ''name'', py ''Switch'')] [(py ''md'', py ''genesis'')]
      = spec_map_system_name latin1_lower [(py ''name'', py ''Switch'')] [(py ''md'', py ''genesis'')]"
    using map_system_name_precedence [where lower = latin1_lower
        and system = "[(py ''name'', py ''Switch'')]" and mapping = "[(py ''md'', py ''genesis'')]"] c
    by blast
  have "spec_map_system_name latin1_lower [(py ''name'', py ''Sega Genesis''), (py ''folder'', py ''MD'')]
      [(py ''md'', py ''genesis''), (py ''sega genesis'', py ''sms'')] = Some (py ''genesis'')"
    by code_simp
  moreover have "spec_map_system_name latin1_lower [(py ''platform_name'', py ''NES'')]
      [(py ''md'', py ''genesis''), (py ''Nes'', py ''nes'')] = Some (py ''nes'')"
    by code_simp
  moreover have "spec_map_system_name latin1_lower [(py ''name'', py ''Switch'')] [(py ''md'', py ''genesis'')] = None"
    by code_simp
  moreover have "spec_map_system_name latin1_lower [(py ''name'', py ''POK'' @ [0xC9] @ py ''MON'')]
         [(py ''pok'' @ [0xE9] @ py ''mon'', py ''x'')] = Some (py ''x'')"
    by code_simp
  ultimately show ?thesis
    by (simp only: 1 2 3 4)
qed

subsection \<open>The feed assembler\<close>

lemma process_systems_acc:
  "process_systems cfg w mapping systems cats
     = cats @ List.map_filter (process_system cfg w mapping) systems"
  by (induction systems arbitrary: cats) (auto split: option.splits)

lemma process_system_types:
  assumes "process_system cfg w mapping system = Some c"
  shows "list_all (\<lambda>it. i_type it \<noteq> []) (c_items c)" and "c_items c \<noteq> []"
proof -
  obtain t games where t: "map_system_name (str_lower w) system mapping = Some t" "t \<noteq> []"
    and c: "c_items c = build_items games t (rom_prefix_url cfg)" "c_items c \<noteq> []"
    using assms
    by (cases "map_system_name (str_lower w) system mapping")
       (auto simp: process_system_def Let_def split: option.splits if_splits)
  have "list_all (\<lambda>it. i_type it = t) (build_items games t (rom_prefix_url cfg))"
    unfolding build_items_map_filter
    by (induction games) (auto simp: build_item_Some(3) split: option.splits)
  then show "list_all (\<lambda>it. i_type it \<noteq> []) (c_items c)"
    using t(2) c(1) by (simp add: list_all_iff)
  show "c_items c \<noteq> []" by (rule c(2))
qed

lemma process_systems_types:
  "list_all (\<lambda>c. list_all (\<lambda>it. i_type it \<noteq> []) (c_items c))
     (List.map_filter (process_system cfg w mapping) systems)"
  by (induction systems) (auto simp: process_system_types(1) split: option.splits)

lemma emitted_generate_feed:
  assumes "emitted (generate_feed cfg dry_run w) = Some fd"
  shows "\<exists>systems mapping. load_systems w = Some systems \<and> load_mapping w = Some mapping
           \<and> f_categories fd = process_systems cfg w mapping systems []
           \<and> f_categories fd \<noteq> []
           \<and> f_props fd = (if feed_props cfg \<noteq> [] then Some (feed_props cfg) else None)
           \<and> result (generate_feed cfg dry_run w) = Returned 0"
  using assms
  by (auto simp: generate_feed_def emitted_def Let_def split: option.splits if_splits)

text \<open>
  Claim C6. When both the systems list and the mapping table load and processing all systems
  leaves no category (that is, every system is skipped), \<open>generate_feed\<close> returns 1 and
  neither prints nor writes a feed, whatever \<open>dry_run\<close> is. A feed that is printed or
  written has at least one category, and the run then returns 0.
\<close>

theorem generate_feed_no_categories:
  "(load_systems w = Some systems \<and> load_mapping w = Some mapping
      \<and> process_systems cfg w mapping systems [] = [] \<longrightarrow>
      generate_feed cfg dry_run w = \<lparr>result = Returned 1, printed = None, written = None\<rparr>)
   \<and> (emitted (generate_feed cfg dry_run w) = Some fd \<longrightarrow>
        f_categories fd \<noteq> [] \<and> result (generate_feed cfg dry_run w) = Returned 0)
   \<and> (process_systems cfg w mapping systems [] = [] \<longleftrightarrow>
        list_all (\<lambda>system. process_system cfg w mapping system = None) systems)"
proof -
  have "process_systems cfg w mapping systems [] = [] \<longleftrightarrow>
        list_all (\<lambda>system. process_system cfg w mapping system = None) systems"
    unfolding process_systems_acc by (induction systems) (auto split: option.splits)
  moreover have "emitted (generate_feed cfg dry_run w) = Some fd \<longrightarrow>
        f_categories fd \<noteq> [] \<and> result (generate_feed cfg dry_run w) = Returned 0"
    using emitted_generate_feed [of cfg dry_run w fd] by blast
  ultimately show ?thesis
    by (simp add: generate_feed_def Let_def)
qed

theorem generate_feed_no_categories_witness:
  "generate_feed default_config False unmapped_world
     = \<lparr>result = Returned 1, printed = None, written = None\<rparr>
   \<and> result (generate_feed default_config True scenario_world) = Returned 0"
proof -
  have l: "load_systems unmapped_world = Some [[(py ''name'', py ''Switch'')], [(py ''name'', py ''Sega Genesis'')]]"
    "load_mapping unmapped_world = Some [(py ''Sega Genesis'', py ''genesis'')]"
    by (simp_all add: unmapped_world_def)
  have p: "process_systems default_config unmapped_world [(py ''Sega Genesis'', py ''genesis'')]
             [[(py ''name'', py ''Switch'')], [(py ''name'', py ''Sega Genesis'')]] [] = []"
    by code_simp
  have 1: "generate_feed default_config False unmapped_world
     = \<lparr>result = Returned 1, printed = None, written = None\<rparr>"
    using generate_feed_no_categories [where w = unmapped_world and cfg = default_config
        and systems = "[[(py ''name'', py ''Switch'')], [(py ''name'', py ''Sega Genesis'')]]"
        and mapping = "[(py ''Sega Genesis'', py ''genesis'')]" and dry_run = False] l p
    by blast
  have "emitted (generate_feed default_config True scenario_world) \<noteq> None"
    by code_simp
  then obtain fd where e: "emitted (generate_feed default_config True scenario_world) = Some fd"
    by auto
  have 2: "result (generate_feed default_config True scenario_world) = Returned 0"
    using generate_feed_no_categories [where w = scenario_world and cfg = default_config
        and dry_run = True and fd = fd] e
    by blast
  from 1 2 show ?thesis by simp
qed

text \<open>
  Claim C9. In a feed that is printed or written, every item of every category has a
  non-empty \<open>type\<close>: the assembler skips a system whose resolved type is absent or empty.
  In \<open>map_system_name\<close>, a key of the table whose value is the empty string counts like a
  missing key in the lookup of the name, of the folder and of the lower-cased folder: the
  result is then what the later rules give.
\<close>

theorem item_types_nonempty:
  "(emitted (generate_feed cfg dry_run w) = Some fd \<longrightarrow>
      list_all (\<lambda>c. list_all (\<lambda>it. i_type it \<noteq> []) (c_items c)) (f_categories fd))
   \<and> (\<not> truthy (map_system_name (str_lower w) system mapping) \<longrightarrow>
        process_system cfg w mapping system = None)
   \<and> (usable_name system = Some name \<and> \<not> truthy (map_of mapping name) \<longrightarrow>
        map_system_name lower system mapping
          = first_some (folder_rule lower system mapping) (scan_items lower mapping (lower name)))
   \<and> (usable_name system = Some name \<and> \<not> truthy (map_of mapping name)
        \<and> system_folder system = Some folder \<and> \<not> truthy (map_of mapping folder) \<longrightarrow>
        map_system_name lower system mapping
          = first_some (nonempty_hit mapping (lower folder))
              (scan_items lower mapping (lower name)))
   \<and> (usable_name system = Some name \<and> \<not> truthy (map_of mapping name)
        \<and> system_folder system = Some folder \<and> \<not> truthy (map_of mapping folder)
        \<and> \<not> truthy (map_of mapping (lower folder)) \<longrightarrow>
        map_system_name lower system mapping = scan_items lower mapping (lower name))"
proof -
  have 1: "emitted (generate_feed cfg dry_run w) = Some fd \<longrightarrow>
      list_all (\<lambda>c. list_all (\<lambda>it. i_type it \<noteq> []) (c_items c)) (f_categories fd)"
    using emitted_generate_feed [of cfg dry_run w fd] process_systems_types [of cfg w]
    by (auto simp: process_systems_acc)
  have 2: "\<not> truthy (map_system_name (str_lower w) system mapping) \<longrightarrow>
        process_system cfg w mapping system = None"
    by (simp add: process_system_def)
  show ?thesis
    using 1 2
    by (simp add: map_system_name_lookup_rules lookup_rules_def folder_rule_def
          nonempty_hit_None [symmetric] scan_items_spec)
qed

theorem item_types_nonempty_witness:
  "(case emitted (generate_feed default_config True scenario_world) of
      None \<Rightarrow> False
    | Some fd \<Rightarrow> list_all (\<lambda>c. list_all (\<lambda>it. i_type it \<noteq> []) (c_items c)) (f_categories fd))
   \<and> process_system default_config scenario_world [(py ''X'', [])] [(py ''name'', py ''X'')] = None
   \<and> map_system_name latin1_lower [(py ''name'', py ''X''), (py ''folder'', py ''f'')] [(py ''X'', []), (py ''f'', py ''nes'')]
       = Some (py ''nes'')
   \<and> map_system_name latin1_lower [(py ''name'', py ''X''), (py ''folder'', py ''F'')] [(py ''F'', []), (py ''f'', py ''nes'')]
       = Some (py ''nes'')
   \<and> map_system_name latin1_lower [(py ''name'', py ''X''), (py ''folder'', py ''F'')]
       [(py ''F'', []), (py ''f'', []), (py ''x'', py ''nes'')] = Some (py ''nes'')"
proof -
  have "emitted (generate_feed default_config True scenario_world) \<noteq> None"
    by code_simp
  then obtain fd where e: "emitted (generate_feed default_config True scenario_world) = Some fd"
    by auto
  have 1: "list_all (\<lambda>c. list_all (\<lambda>it. i_type it \<noteq> []) (c_items c)) (f_categories fd)"
    using item_types_nonempty [where cfg = default_config and dry_run = True
        and w = scenario_world and fd = fd] e
    by blast
  have "\<not> truthy (map_system_name (str_lower scenario_world) [(py ''name'', py ''X'')]
      [(py ''X'', [])])"
    by code_simp
  then have 2: "process_system default_config scenario_world [(py ''X'', [])] [(py ''name'', py ''X'')] = None"
    using item_types_nonempty [where system = "[(py ''name'', py ''X'')]" and mapping = "[(py ''X'', [])]"
        and cfg = default_config and w = scenario_world]
    by blast
  have u: "usable_name [(py ''name'', py ''X''), (py ''folder'', py ''f'')] = Some (py ''X'')"
    "usable_name [(py ''name'', py ''X''), (py ''folder'', py ''F'')] = Some (py ''X'')"
    "system_folder [(py ''name'', py ''X''), (py ''folder'', py ''F'')] = Some (py ''F'')"
    by code_simp+
  have n: "\<not> truthy (map_of [(py ''X'', []), (py ''f'', py ''nes'')] (py ''X''))"
    "\<not> truthy (map_of [(py ''F'', []), (py ''f'', py ''nes'')] (py ''X''))"
    "\<not> truthy (map_of [(py ''F'', []), (py ''f'', py ''nes'')] (py ''F''))"
    "\<not> truthy (map_of [(py ''F'', []), (py ''f'', []), (py ''x'', py ''nes'')] (py ''X''))"
    "\<not> truthy (map_of [(py ''F'', []), (py ''f'', []), (py ''x'', py ''nes'')] (py ''F''))"
    "\<not> truthy (map_of [(py ''F'', []), (py ''f'', []), (py ''x'', py ''nes'')] (latin1_lower (py ''F'')))"
    by code_simp+
  have "map_system_name latin1_lower [(py ''name'', py ''X''), (py ''folder'', py ''f'')] [(py ''X'', []), (py ''f'', py ''nes'')]
      = first_some (folder_rule latin1_lower [(py ''name'', py ''X''), (py ''folder'', py ''f'')] [(py ''X'', []), (py ''f'', py ''nes'')])
          (scan_items latin1_lower [(py ''X'', []), (py ''f'', py ''nes'')] (latin1_lower (py ''X'')))"
    using item_types_nonempty [where lower = latin1_lower
        and system = "[(py ''name'', py ''X''), (py ''folder'', py ''f'')]"
        and mapping = "[(py ''X'', []), (py ''f'', py ''nes'')]" and name = "(py ''X'')"] u(1) n(1)
    by blast
  moreover have "first_some (folder_rule latin1_lower [(py ''name'', py ''X''), (py ''folder'', py ''f'')] [(py ''X'', []), (py ''f'', py ''nes'')])
          (scan_items latin1_lower [(py ''X'', []), (py ''f'', py ''nes'')] (latin1_lower (py ''X''))) = Some (py ''nes'')"
    by code_simp
  ultimately have 3: "map_system_name latin1_lower [(py ''name'', py ''X''), (py ''folder'', py ''f'')]
      [(py ''X'', []), (py ''f'', py ''nes'')] = Some (py ''nes'')"
    by simp
  have "map_system_name latin1_lower [(py ''name'', py ''X''), (py ''folder'', py ''F'')] [(py ''F'', []), (py ''f'', py ''nes'')]
      = first_some (nonempty_hit [(py ''F'', []), (py ''f'', py ''nes'')] (latin1_lower (py ''F'')))
          (scan_items latin1_lower [(py ''F'', []), (py ''f'', py ''nes'')] (latin1_lower (py ''X'')))"
    using item_types_nonempty [where lower = latin1_lower
        and system = "[(py ''name'', py ''X''), (py ''folder'', py ''F'')]"
        and mapping = "[(py ''F'', []), (py ''f'', py ''nes'')]" and name = "(py ''X'')" and folder = "(py ''F'')"]
      u(2,3) n(2,3)
    by blast
  moreover have "first_some (nonempty_hit [(py ''F'', []), (py ''f'', py ''nes'')] (latin1_lower (py ''F'')))
          (scan_items latin1_lower [(py ''F'', []), (py ''f'', py ''nes'')] (latin1_lower (py ''X''))) = Some (py ''nes'')"
    by code_simp
  ultimately have 4: "map_system_name latin1_lower [(py ''name'', py ''X''), (py ''folder'', py ''F'')]
      [(py ''F'', []), (py ''f'', py ''nes'')] = Some (py ''nes'')"
    by simp
  have "map_system_name latin1_lower [(py ''name'', py ''X''), (py ''folder'', py ''F'')]
      [(py ''F'', []), (py ''f'', []), (py ''x'', py ''nes'')]
      = scan_items latin1_lower [(py ''F'', []), (py ''f'', []), (py ''x'', py ''nes'')] (latin1_lower (py ''X''))"
    using item_types_nonempty [where lower = latin1_lower
        and system = "[(py ''name'', py ''X''), (py ''folder'', py ''F'')]"
        and mapping = "[(py ''F'', []), (py ''f'', []), (py ''x'', py ''nes'')]" and name = "(py ''X'')"
        and folder = "(py ''F'')"]
      u(2,3) n(4,5,6)
    by blast
  moreover have "scan_items latin1_lower [(py ''F'', []), (py ''f'', []), (py ''x'', py ''nes'')] (latin1_lower (py ''X'')) = Some (py ''nes'')"
    by code_simp
  ultimately have 5: "map_system_name latin1_lower [(py ''name'', py ''X''), (py ''folder'', py ''F'')]
      [(py ''F'', []), (py ''f'', []), (py ''x'', py ''nes'')] = Some (py ''nes'')"
    by simp
  from 1 2 3 4 5 show ?thesis by (simp add: e)
qed

subsection \<open>Feed-wide properties\<close>

lemma split_acc_nosep: "sep \<notin> set a \<Longrightarrow> split_acc sep cur a = [cur @ a]"
  by (induction a arbitrary: cur) auto

lemma split_acc_sep:
  "sep \<notin> set a \<Longrightarrow> split_acc sep cur (a @ sep # rest) = (cur @ a) # split_acc sep [] rest"
  by (induction a arbitrary: cur) auto

lemma py_split_three:
  assumes "sep \<notin> set u1" "sep \<notin> set u2" "sep \<notin> set u3"
  shows "py_split sep (u1 @ sep # u2 @ sep # u3) = [u1, u2, u3]"
  using assms by (simp add: py_split_def split_acc_sep split_acc_nosep)

lemma parse_psx_bios_three:
  assumes "(ch CHR '','') \<notin> set u1" "(ch CHR '','') \<notin> set u2" "(ch CHR '','') \<notin> set u3"
    and "py_strip u1 \<noteq> []" "py_strip u2 \<noteq> []" "py_strip u3 \<noteq> []"
  shows "parse_psx_bios (u1 @ (py '','') @ u2 @ (py '','') @ u3) = Some [py_strip u1, py_strip u2, py_strip u3]"
  using assms py_split_three [of "(ch CHR '','')" u1 u2 u3]
  by (simp add: parse_psx_bios_def)

lemma parse_psx_bios_default:
  "parse_psx_bios DEFAULT_PSX_BIOS_URLS =
     Some [py ''https://psx.arthus.net/roms/bios/scph5500.bin'',
           py ''https://psx.arthus.net/roms/bios/scph5501.bin'',
           py ''https://psx.arthus.net/roms/bios/scph5502.bin'']"
  by code_simp

lemma feed_props_psx:
  "map_of (feed_props cfg) ''psx_bios''
     = (case psx_bios_urls cfg of
          None \<Rightarrow> None
        | Some urls \<Rightarrow> if urls = [] then None else Some (PList urls))"
  by (simp add: feed_props_def Let_def AList.update_conv' split: option.splits)

lemma feed_props_neogeo:
  "map_of (feed_props cfg) ''neogeo_bios''
     = (case neogeo_bios_url cfg of
          None \<Rightarrow> None
        | Some u \<Rightarrow> if u = [] then None else Some (PStr u))"
  by (cases "neogeo_bios_url cfg")
     (simp_all add: feed_props_def Let_def AList.update_conv' split: option.splits)

lemma emitted_feed_prop:
  assumes "emitted (generate_feed cfg dry_run w) = Some fd"
  shows "feed_prop fd k = map_of (feed_props cfg) k"
  using emitted_generate_feed [OF assms] by (auto simp: feed_prop_def)

text \<open>
  Claim C5, amended. A BIOS property is in the feed exactly when the value of the
  configuration is present and non-empty. Three comma-separated URLs in
  \<^verbatim>\<open>PSX_BIOS_URLS\<close> (none of them blank) give \<open>psx_bios_urls\<close> as these three, trimmed,
  in the given order, and a feed that is emitted carries them under \<open>psx_bios\<close>. When the
  variable is not set, the three default URLs are used; the feed has no \<open>psx_bios\<close> when
  the variable is set to the empty string.
\<close>

theorem feed_bios_props:
  "((ch CHR '','') \<notin> set url_a \<and> (ch CHR '','') \<notin> set url_b \<and> (ch CHR '','') \<notin> set url_c
      \<and> py_strip url_a \<noteq> [] \<and> py_strip url_b \<noteq> [] \<and> py_strip url_c \<noteq> []
      \<and> env ''PSX_BIOS_URLS'' = Some (url_a @ (py '','') @ url_b @ (py '','') @ url_c) \<longrightarrow>
      psx_bios_urls (build_config env now) = Some [py_strip url_a, py_strip url_b, py_strip url_c])
   \<and> (env ''PSX_BIOS_URLS'' = None \<longrightarrow>
        psx_bios_urls (build_config env now)
          = Some [py ''https://psx.arthus.net/roms/bios/scph5500.bin'',
                  py ''https://psx.arthus.net/roms/bios/scph5501.bin'',
                  py ''https://psx.arthus.net/roms/bios/scph5502.bin''])
   \<and> (env ''PSX_BIOS_URLS'' = Some [] \<longrightarrow> psx_bios_urls (build_config env now) = None)
   \<and> (emitted (generate_feed cfg dry_run w) = Some fd \<longrightarrow>
        feed_prop fd ''psx_bios''
          = (case psx_bios_urls cfg of
               None \<Rightarrow> None
             | Some urls \<Rightarrow> if urls = [] then None else Some (PList urls))
        \<and> feed_prop fd ''neogeo_bios''
          = (case neogeo_bios_url cfg of
               None \<Rightarrow> None
             | Some u \<Rightarrow> if u = [] then None else Some (PStr u)))"
proof -
  have 1: "(ch CHR '','') \<notin> set url_a \<and> (ch CHR '','') \<notin> set url_b \<and> (ch CHR '','') \<notin> set url_c
      \<and> py_strip url_a \<noteq> [] \<and> py_strip url_b \<noteq> [] \<and> py_strip url_c \<noteq> []
      \<and> env ''PSX_BIOS_URLS'' = Some (url_a @ (py '','') @ url_b @ (py '','') @ url_c) \<longrightarrow>
      psx_bios_urls (build_config env now) = Some [py_strip url_a, py_strip url_b, py_strip url_c]"
    using parse_psx_bios_three [of url_a url_b url_c]
    by (auto simp: build_config_def env_get_def Let_def)
  have 2: "env ''PSX_BIOS_URLS'' = None \<longrightarrow>
        psx_bios_urls (build_config env now)
          = Some [py ''https://psx.arthus.net/roms/bios/scph5500.bin'',
                  py ''https://psx.arthus.net/roms/bios/scph5501.bin'',
                  py ''https://psx.arthus.net/roms/bios/scph5502.bin'']"
    by (simp add: build_config_def env_get_def Let_def parse_psx_bios_default)
  have 3: "env ''PSX_BIOS_URLS'' = Some [] \<longrightarrow> psx_bios_urls (build_config env now) = None"
    by (simp add: build_config_def env_get_def Let_def parse_psx_bios_def)
  have 4: "emitted (generate_feed cfg dry_run w) = Some fd \<longrightarrow>
        feed_prop fd ''psx_bios''
          = (case psx_bios_urls cfg of
               None \<Rightarrow> None
             | Some urls \<Rightarrow> if urls = [] then None else Some (PList urls))
        \<and> feed_prop fd ''neogeo_bios''
          = (case neogeo_bios_url cfg of
               None \<Rightarrow> None
             | Some u \<Rightarrow> if u = [] then None else Some (PStr u))"
    by (simp add: emitted_feed_prop feed_props_psx feed_props_neogeo)
  from 1 2 3 4 show ?thesis by blast
qed

text \<open>
  Claim C5, as it is worded, fails where it says that omitting the PlayStation BIOS
  configuration gives a feed without \<open>psx_bios\<close>: with an empty environment
  \<open>build_config\<close> takes the three default URLs, and the printed feed carries them.
\<close>

theorem feed_bios_props_counterexample:
  "psx_bios_urls (build_config (\<lambda>k. None) (py ''2024-01-01T00:00:00''))
     = Some [py ''https://psx.arthus.net/roms/bios/scph5500.bin'',
             py ''https://psx.arthus.net/roms/bios/scph5501.bin'',
             py ''https://psx.arthus.net/roms/bios/scph5502.bin'']
   \<and> map_option (\<lambda>fd. feed_prop fd ''psx_bios'')
        (printed (generate_feed (build_config (\<lambda>k. None) (py ''2024-01-01T00:00:00'')) True
           \<lparr>load_systems = Some [[(py ''name'', py ''Sega Genesis''), (py ''platform_name'', py ''Mega Drive'')]],
            load_mapping = Some [(py ''Sega Genesis'', py ''genesis'')],
            load_games = (\<lambda>n. if n = py ''Mega Drive''
                          then Some [EList [py ''Sonic (USA).zip'', py ''https://x/sonic.zip'', py ''4M'']]
                          else None),
            mkdir_ok = True, write_ok = True, str_lower = latin1_lower\<rparr>))
     = Some (Some (PList [py ''https://psx.arthus.net/roms/bios/scph5500.bin'',
             py ''https://psx.arthus.net/roms/bios/scph5501.bin'',
             py ''https://psx.arthus.net/roms/bios/scph5502.bin'']))"
  by code_simp

theorem feed_bios_props_witness:
  "psx_bios_urls (build_config (map_of [(''PSX_BIOS_URLS'', py ''http://a/1.bin, http://a/2.bin,http://a/3.bin'')])
      (py ''2024-01-01T00:00:00'')) = Some [py ''http://a/1.bin'', py ''http://a/2.bin'', py ''http://a/3.bin'']
   \<and> psx_bios_urls (build_config (map_of [(''FEED_TITLE'', py ''T'')]) (py ''2024-01-01T00:00:00''))
       = Some [py ''https://psx.arthus.net/roms/bios/scph5500.bin'',
               py ''https://psx.arthus.net/roms/bios/scph5501.bin'',
               py ''https://psx.arthus.net/roms/bios/scph5502.bin'']
   \<and> psx_bios_urls (build_config (map_of [(''PSX_BIOS_URLS'', [])]) (py ''2024-01-01T00:00:00'')) = None
   \<and> (case emitted (generate_feed
                (build_config (map_of [(''PSX_BIOS_URLS'', [])]) (py ''2024-01-01T00:00:00''))
                True scenario_world) of
         None \<Rightarrow> False
       | Some fd \<Rightarrow> feed_prop fd ''psx_bios'' = None
                      \<and> feed_prop fd ''neogeo_bios'' = Some (PStr DEFAULT_NEOGEO_BIOS_URL))"
proof -
  let ?now = "(py ''2024-01-01T00:00:00'')"
  have s: "py_strip (py ''http://a/1.bin'') = py ''http://a/1.bin''"
    "py_strip (py '' http://a/2.bin'') = py ''http://a/2.bin''"
    "py_strip (py ''http://a/3.bin'') = py ''http://a/3.bin''"
    by code_simp+
  have c: "(ch CHR '','') \<notin> set (py ''http://a/1.bin'')" "(ch CHR '','') \<notin> set (py '' http://a/2.bin'')"
    "(ch CHR '','') \<notin> set (py ''http://a/3.bin'')"
    by simp_all
  have e1: "map_of [(''PSX_BIOS_URLS'', py ''http://a/1.bin, http://a/2.bin,http://a/3.bin'')]
      ''PSX_BIOS_URLS'' = Some ((py ''http://a/1.bin'') @ (py '','') @ (py '' http://a/2.bin'') @ (py '','') @ (py ''http://a/3.bin''))"
    by simp
  have 1: "psx_bios_urls (build_config (map_of [(''PSX_BIOS_URLS'', py ''http://a/1.bin, http://a/2.bin,http://a/3.bin'')])
      ?now) = Some [py ''http://a/1.bin'', py ''http://a/2.bin'', py ''http://a/3.bin'']"
    using feed_bios_props [where url_a = "(py ''http://a/1.bin'')" and url_b = "(py '' http://a/2.bin'')"
        and url_c = "(py ''http://a/3.bin'')" and now = ?now
        and env = "map_of [(''PSX_BIOS_URLS'', py ''http://a/1.bin, http://a/2.bin,http://a/3.bin'')]"]
      c e1 s
    by (simp del: map_of.simps)
  have 2: "psx_bios_urls (build_config (map_of [(''FEED_TITLE'', py ''T'')]) ?now)
       = Some [py ''https://psx.arthus.net/roms/bios/scph5500.bin'',
               py ''https://psx.arthus.net/roms/bios/scph5501.bin'',
               py ''https://psx.arthus.net/roms/bios/scph5502.bin'']"
    using feed_bios_props [where env = "map_of [(''FEED_TITLE'', py ''T'')]" and now = ?now]
    by simp
  have 3: "psx_bios_urls (build_config (map_of [(''PSX_BIOS_URLS'', [])]) ?now) = None"
    using feed_bios_props [where env = "map_of [(''PSX_BIOS_URLS'', [])]" and now = ?now]
    by simp
  have n: "neogeo_bios_url (build_config (map_of [(''PSX_BIOS_URLS'', [])]) ?now)
      = Some DEFAULT_NEOGEO_BIOS_URL" "DEFAULT_NEOGEO_BIOS_URL \<noteq> []"
    by (simp_all add: build_config_def env_get_def DEFAULT_NEOGEO_BIOS_URL_def)
  have "emitted (generate_feed (build_config (map_of [(''PSX_BIOS_URLS'', [])]) ?now)
                True scenario_world) \<noteq> None"
    by code_simp
  then obtain fd where e: "emitted (generate_feed
      (build_config (map_of [(''PSX_BIOS_URLS'', [])]) ?now) True scenario_world) = Some fd"
    by auto
  have 4: "feed_prop fd ''psx_bios'' = None
      \<and> feed_prop fd ''neogeo_bios'' = Some (PStr DEFAULT_NEOGEO_BIOS_URL)"
    using feed_bios_props [where cfg = "build_config (map_of [(''PSX_BIOS_URLS'', [])]) ?now"
        and dry_run = True and w = scenario_world and fd = fd] e 3 n
    by simp
  from 1 2 3 4 show ?thesis by (simp only: e option.case)
qed

end
